theory Spec2Isabelle
  imports Main
begin

section \<open>Values, errors and the worker's environment\<close>

text \<open>
  The Electron main process supervises one Python worker and talks to it over loopback
  HTTP: class \<^verbatim>\<open>PythonManager\<close> of \<^verbatim>\<open>main.ts\<close>, in the revision that has
  \<^verbatim>\<open>restartWorker\<close>, \<^verbatim>\<open>shouldAttemptRecovery\<close>, \<^verbatim>\<open>normalizeError\<close> and the asynchronous
  \<^verbatim>\<open>stop\<close>.  This theory embeds that class: its three fields, the module variable
  \<^verbatim>\<open>quitting\<close>, and every method but the two that resolve file paths.

  A JavaScript value is modelled as far as the manager inspects it, which is
  \<^verbatim>\<open>typeof data === 'string'\<close> and truthiness; numbers are integers.
\<close>

datatype js_value =
    JUndefined
  | JNull
  | JBool bool
  | JNum int
  | JStr string
  | JArr "js_value list"
  | JObj "(string \<times> js_value) list"

fun truthy :: "js_value \<Rightarrow> bool" where
  "truthy JUndefined = False"
| "truthy JNull = False"
| "truthy (JBool b) = b"
| "truthy (JNum n) = (n \<noteq> 0)"
| "truthy (JStr t) = (t \<noteq> [])"
| "truthy (JArr _) = True"
| "truthy (JObj _) = True"

text \<open>
  The message of an \<^verbatim>\<open>Error\<close>: a literal string, or the text \<^verbatim>\<open>JSON.stringify(data)\<close>,
  kept symbolic as the value it serialises.
\<close>

datatype message = Msg string | JSON_stringify js_value

record response =
  status :: int
  data :: js_value

record axios_error =
  response :: "response option"
  code :: "string option"

text \<open>
  What a rejected promise carries: an axios error (\<^verbatim>\<open>isAxiosError\<close>), another
  \<^verbatim>\<open>Error\<close> instance, or a value that is no \<^verbatim>\<open>Error\<close>, given by its \<^verbatim>\<open>String(...)\<close>.
\<close>

datatype thrown =
    AxiosError axios_error
  | Error message
  | NonError string

definition TRANSIENT_ERROR_CODES :: "string set" where
  "TRANSIENT_ERROR_CODES = {''ECONNREFUSED'', ''ECONNRESET'', ''ETIMEDOUT''}"

fun shouldAttemptRecovery :: "thrown \<Rightarrow> bool" where
  "shouldAttemptRecovery (AxiosError err) =
     (if (case response err of Some r \<Rightarrow> status r \<ge> 500 | None \<Rightarrow> False) then True
      else if (case code err of Some c \<Rightarrow> c \<noteq> [] \<and> c \<in> TRANSIENT_ERROR_CODES | None \<Rightarrow> False) then True
      else False)"
| "shouldAttemptRecovery _ = False"

fun normalizeError :: "thrown \<Rightarrow> thrown" where
  "normalizeError (Error m) = Error m"
| "normalizeError (NonError t) = Error (Msg t)"
| "normalizeError (AxiosError err) =
     (let d = (case response err of Some r \<Rightarrow> data r | None \<Rightarrow> JUndefined) in
      if truthy d then
        (case d of
           JStr t \<Rightarrow> Error (Msg t)
         | _ \<Rightarrow> Error (JSON_stringify d))
      else if (case code err of Some c \<Rightarrow> c \<noteq> [] \<and> c \<in> TRANSIENT_ERROR_CODES | None \<Rightarrow> False) then
        Error (Msg ''Python worker is unavailable. Please try again.'')
      else AxiosError err)"

datatype http_request = Get string | Post string js_value

datatype http_result = Resolve js_value | Reject thrown

text \<open>
  How the worker process answers \<^verbatim>\<open>stop()\<close>: \<^verbatim>\<open>proc.exitCode\<close> is already set;
  \<^verbatim>\<open>proc.kill()\<close> throws; the \<^verbatim>\<open>exit\<close> event arrives before the 2000 ms timer; or the
  timer fires first.
\<close>

datatype kill_behaviour =
    AlreadyExited
  | KillThrows
  | ExitsInTime
  | NeverConfirms

text \<open>
  Callbacks of the event loop that do not belong to the call being followed: the
  \<^verbatim>\<open>exit\<close> handler that \<^verbatim>\<open>spawnWorker()\<close> registers on a worker process, and the
  \<^verbatim>\<open>cleanup\<close> that the 2000 ms timer of a \<^verbatim>\<open>stop()\<close> runs once more after that \<^verbatim>\<open>stop()\<close>
  has resolved.
\<close>

datatype callback = ExitEvent | StaleCleanup

text \<open>
  The environment answers the \<open>k\<close>-th HTTP round trip, says how worker process \<open>p\<close>
  reacts to \<^verbatim>\<open>stop()\<close>, and names the callbacks that run while the call is suspended
  for the \<open>k\<close>-th time.
\<close>

record env =
  respond :: "nat \<Rightarrow> http_request \<Rightarrow> http_result"
  onKill :: "nat \<Rightarrow> kill_behaviour"
  interrupts :: "nat \<Rightarrow> callback list"

text \<open>
  What the manager does to the outside, in order.  \<^verbatim>\<open>console.error\<close> is \<open>Log\<close>;
  \<^verbatim>\<open>console.log\<close> is not recorded.
\<close>

datatype event =
    Spawn nat
  | Kill nat
  | Http http_request
  | Sleep nat
  | SetTimeout nat
  | Log string

text \<open>
  The fields of \<^verbatim>\<open>PythonManager\<close> and the module variable \<^verbatim>\<open>quitting\<close>, with counters
  for the worker processes spawned (the next handle), the promises created, the round
  trips issued and the suspensions passed, and the effects so far.
\<close>

record state =
  process :: "nat option"
  ready :: bool
  startPromise :: "nat option"
  quitting :: bool
  spawned :: nat
  promises :: nat
  calls :: nat
  awaits :: nat
  trace :: "event list"

text \<open>
  An \<^verbatim>\<open>async\<close> call returns, throws, or stays suspended on a promise that only another
  caller's operation settles.
\<close>

datatype 'a completion = Returned 'a | Threw thrown | Awaits nat

text \<open>
  \<open>on_exit\<close> is the \<^verbatim>\<open>exit\<close> handler registered in \<^verbatim>\<open>spawnWorker()\<close>, \<open>cleanup\<close> the
  closure of that name in \<^verbatim>\<open>stop()\<close>.  Where the source awaits the network or a timer,
  the call is suspended and the callbacks the environment names run first: \<open>suspend\<close>.
  An \<^verbatim>\<open>await\<close> of a promise that is settled from within the call does not suspend it.
\<close>

definition emit :: "event \<Rightarrow> state \<Rightarrow> state" where
  "emit ev s = s\<lparr>trace := trace s @ [ev]\<rparr>"

definition on_exit :: "state \<Rightarrow> state" where
  "on_exit s =
     s\<lparr>ready := False, process := None,
       startPromise := (if quitting s then startPromise s else None)\<rparr>"

definition cleanup :: "state \<Rightarrow> state" where
  "cleanup s = s\<lparr>process := None, ready := False\<rparr>"

fun run_callback :: "callback \<Rightarrow> state \<Rightarrow> state" where
  "run_callback ExitEvent s = on_exit s"
| "run_callback StaleCleanup s = cleanup s"

definition suspend :: "env \<Rightarrow> state \<Rightarrow> state" where
  "suspend e s = fold run_callback (interrupts e (awaits s)) (s\<lparr>awaits := Suc (awaits s)\<rparr>)"

definition axios :: "env \<Rightarrow> http_request \<Rightarrow> state \<Rightarrow> http_result \<times> state" where
  "axios e rq s =
     (respond e (calls s) rq, suspend e (emit (Http rq) (s\<lparr>calls := Suc (calls s)\<rparr>)))"

definition sleep :: "env \<Rightarrow> nat \<Rightarrow> state \<Rightarrow> state" where
  "sleep e ms s = suspend e (emit (Sleep ms) s)"

text \<open>
  \<^verbatim>\<open>stop()\<close>.  \<open>Kill\<close> records the call of \<^verbatim>\<open>proc.kill()\<close>, also when it throws.  When
  the exit arrives in time, the \<^verbatim>\<open>exit\<close> handler registered at the spawn runs before the
  \<^verbatim>\<open>cleanup\<close> registered by \<^verbatim>\<open>stop()\<close>; the timer stays behind.  \<^verbatim>\<open>stop()\<close> has no
  \<^verbatim>\<open>throw\<close> and catches what \<^verbatim>\<open>proc.kill()\<close> throws, so every branch returns.
\<close>

definition stop :: "env \<Rightarrow> state \<Rightarrow> unit completion \<times> state" where
  "stop e s =
     (case process s of
        None \<Rightarrow> (Returned (), s)
      | Some proc \<Rightarrow>
          (case onKill e proc of
             AlreadyExited \<Rightarrow> (Returned (), cleanup s)
           | KillThrows \<Rightarrow>
               (Returned (),
                emit (SetTimeout 2000)
                  (cleanup (emit (Log ''Failed to stop Python worker'') (emit (Kill proc) s))))
           | ExitsInTime \<Rightarrow>
               (Returned (),
                cleanup (on_exit (suspend e (emit (SetTimeout 2000) (emit (Kill proc) s)))))
           | NeverConfirms \<Rightarrow>
               (Returned (), cleanup (suspend e (emit (SetTimeout 2000) (emit (Kill proc) s))))))"

text \<open>\<^verbatim>\<open>waitForReady()\<close>: the \<^verbatim>\<open>for\<close> loop, by its counter \<^verbatim>\<open>attempt\<close>.\<close>

function waitForReady_loop :: "nat \<Rightarrow> env \<Rightarrow> state \<Rightarrow> unit completion \<times> state" where
  "waitForReady_loop attempt e s =
     (if attempt < 60 then
        (case axios e (Get ''/health'') s of
           (Resolve _, s1) \<Rightarrow> (Returned (), s1\<lparr>ready := True\<rparr>)
         | (Reject _, s1) \<Rightarrow> waitForReady_loop (attempt + 1) e (sleep e 500 s1))
      else (Threw (Error (Msg ''Python worker failed to start'')), s))"
  by pat_completeness auto
termination
  by (relation "measure (\<lambda>(attempt, e, s). 60 - attempt)") auto

declare waitForReady_loop.simps [simp del]

definition waitForReady :: "env \<Rightarrow> state \<Rightarrow> unit completion \<times> state" where
  "waitForReady e s = waitForReady_loop 0 e s"

definition performRequest :: "env \<Rightarrow> string \<Rightarrow> js_value option \<Rightarrow> state \<Rightarrow> http_result \<times> state" where
  "performRequest e endpoint payload s =
     (case payload of
        Some p \<Rightarrow> axios e (Post endpoint p) s
      | None \<Rightarrow> axios e (Get endpoint) s)"

definition spawn_process :: "state \<Rightarrow> state" where
  "spawn_process s =
     emit (Spawn (spawned s))
       (s\<lparr>ready := False, process := Some (spawned s), spawned := Suc (spawned s)\<rparr>)"

text \<open>
  The five \<^verbatim>\<open>async\<close> methods that call one another.  \<^verbatim>\<open>request\<close> reaches itself through
  \<^verbatim>\<open>ensureBoundary\<close>, so the recursion carries fuel; \<open>None\<close> is fuel run out.

  In \<^verbatim>\<open>start()\<close>, the promise of \<^verbatim>\<open>spawnWorker()\<close> is numbered and stored in
  \<^verbatim>\<open>startPromise\<close>, and its \<^verbatim>\<open>finally\<close> callback clears the field when the operation
  settles.  A call that finds a promise stored by somebody else awaits it; what it then
  receives is not for this call to decide, and the model stops there with \<open>Awaits\<close>.
  In \<^verbatim>\<open>request()\<close>, the retry is \<^verbatim>\<open>return performRequest()\<close> inside the \<^verbatim>\<open>catch\<close>
  block: its failure is thrown as it is, not through \<^verbatim>\<open>normalizeError\<close>.
\<close>

fun restartWorker :: "nat \<Rightarrow> env \<Rightarrow> state \<Rightarrow> (unit completion \<times> state) option"
and start :: "nat \<Rightarrow> env \<Rightarrow> state \<Rightarrow> (unit completion \<times> state) option"
and spawnWorker :: "nat \<Rightarrow> env \<Rightarrow> state \<Rightarrow> (unit completion \<times> state) option"
and ensureBoundary :: "nat \<Rightarrow> env \<Rightarrow> state \<Rightarrow> (unit completion \<times> state) option"
and request :: "nat \<Rightarrow> env \<Rightarrow> string \<Rightarrow> js_value option \<Rightarrow> state \<Rightarrow> (js_value completion \<times> state) option"
where
  "restartWorker fuel e s =
     (case stop e s of
        (Returned _, s1) \<Rightarrow> start fuel e (s1\<lparr>startPromise := None\<rparr>)
      | (Threw t, s1) \<Rightarrow> Some (Threw t, s1)
      | (Awaits p, s1) \<Rightarrow> Some (Awaits p, s1))"
| "start fuel e s =
     (if ready s then Some (Returned (), s)
      else
        (case startPromise s of
           Some p \<Rightarrow> Some (Awaits p, s)
         | None \<Rightarrow>
             (case spawnWorker fuel e (s\<lparr>startPromise := Some (promises s), promises := Suc (promises s)\<rparr>) of
                None \<Rightarrow> None
              | Some (c, s1) \<Rightarrow> Some (c, s1\<lparr>startPromise := None\<rparr>))))"
| "spawnWorker fuel e s =
     (case process s of
        Some _ \<Rightarrow> Some (Returned (), s)
      | None \<Rightarrow>
          (case waitForReady e (spawn_process s) of
             (Returned _, s1) \<Rightarrow> ensureBoundary fuel e s1
           | (Threw t, s1) \<Rightarrow> Some (Threw t, s1)
           | (Awaits p, s1) \<Rightarrow> Some (Awaits p, s1)))"
| "ensureBoundary fuel e s =
     (case request fuel e ''/boundary/cache'' (Some (JObj [])) s of
        None \<Rightarrow> None
      | Some (Returned _, s1) \<Rightarrow> Some (Returned (), s1)
      | Some (Threw t, s1) \<Rightarrow> Some (Returned (), emit (Log ''Failed to ensure boundary cache'') s1)
      | Some (Awaits p, s1) \<Rightarrow> Some (Awaits p, s1))"
| "request 0 e endpoint payload s = None"
| "request (Suc fuel) e endpoint payload s =
     (case (if \<not> ready s then start fuel e s else Some (Returned (), s)) of
        None \<Rightarrow> None
      | Some (Threw t, s1) \<Rightarrow> Some (Threw t, s1)
      | Some (Awaits p, s1) \<Rightarrow> Some (Awaits p, s1)
      | Some (Returned _, s1) \<Rightarrow>
          (case performRequest e endpoint payload s1 of
             (Resolve v, s2) \<Rightarrow> Some (Returned v, s2)
           | (Reject err, s2) \<Rightarrow>
               if shouldAttemptRecovery err then
                 (case restartWorker fuel e s2 of
                    None \<Rightarrow> None
                  | Some (Threw t, s3) \<Rightarrow> Some (Threw t, s3)
                  | Some (Awaits p, s3) \<Rightarrow> Some (Awaits p, s3)
                  | Some (Returned _, s3) \<Rightarrow>
                      (case performRequest e endpoint payload s3 of
                         (Resolve v, s4) \<Rightarrow> Some (Returned v, s4)
                       | (Reject err2, s4) \<Rightarrow> Some (Threw err2, s4)))
               else Some (Threw (normalizeError err), s2)))"

section \<open>The event loop around \<^verbatim>\<open>start()\<close>\<close>

text \<open>
  Callers of \<^verbatim>\<open>start()\<close> interleave at the \<^verbatim>\<open>await\<close>s.  One step of the loop is one
  run-to-completion block: the synchronous part of a \<^verbatim>\<open>start()\<close> call up to
  \<^verbatim>\<open>await this.startPromise\<close>, the \<^verbatim>\<open>exit\<close> handler of the worker, a health probe of a
  pending \<^verbatim>\<open>spawnWorker()\<close> succeeding, the settling of a pending \<^verbatim>\<open>spawnWorker()\<close>
  (its \<^verbatim>\<open>finally\<close> callback and the resumption of every caller awaiting it), the
  \<^verbatim>\<open>cleanup\<close> of a \<^verbatim>\<open>stop()\<close>, and the assignment \<^verbatim>\<open>this.startPromise = null\<close> of
  \<^verbatim>\<open>restartWorker()\<close>.  The HTTP traffic inside a pending operation is not part of this
  model.
\<close>

text \<open>
  \<open>inflight\<close> holds the \<^verbatim>\<open>spawnWorker()\<close> invocations that have not settled, \<open>waiting\<close>
  the callers suspended in \<^verbatim>\<open>await this.startPromise\<close> with the promise each awaits,
  \<open>finished\<close> the callers whose \<^verbatim>\<open>start()\<close> has settled, with the outcome.
\<close>

record loop_state =
  mgr :: state
  inflight :: "nat list"
  waiting :: "(nat \<times> nat) list"
  finished :: "(nat \<times> unit completion) list"

datatype loop_event =
    CallStart nat
  | WorkerExit
  | HealthOk nat
  | Settle nat "unit completion"
  | StopCleanup
  | RestartClear

fun loop_step :: "loop_event \<Rightarrow> loop_state \<Rightarrow> loop_state" where
  "loop_step (CallStart c) L =
     (if ready (mgr L) then L\<lparr>finished := finished L @ [(c, Returned ())]\<rparr>
      else
        (case startPromise (mgr L) of
           Some p \<Rightarrow> L\<lparr>waiting := waiting L @ [(c, p)]\<rparr>
         | None \<Rightarrow>
             (let p = promises (mgr L);
                  s1 = (case process (mgr L) of Some _ \<Rightarrow> mgr L | None \<Rightarrow> spawn_process (mgr L))
              in L\<lparr>mgr := s1\<lparr>startPromise := Some p, promises := Suc p\<rparr>,
                   inflight := inflight L @ [p],
                   waiting := waiting L @ [(c, p)]\<rparr>)))"
| "loop_step WorkerExit L = L\<lparr>mgr := on_exit (mgr L)\<rparr>"
| "loop_step (HealthOk p) L =
     (if p \<in> set (inflight L) then L\<lparr>mgr := (mgr L)\<lparr>ready := True\<rparr>\<rparr> else L)"
| "loop_step (Settle p outcome) L =
     (if p \<in> set (inflight L) then
        L\<lparr>mgr := (mgr L)\<lparr>startPromise := None\<rparr>,
          inflight := removeAll p (inflight L),
          waiting := filter (\<lambda>w. snd w \<noteq> p) (waiting L),
          finished := finished L @ map (\<lambda>w. (fst w, outcome)) (filter (\<lambda>w. snd w = p) (waiting L))\<rparr>
      else L)"
| "loop_step StopCleanup L = L\<lparr>mgr := cleanup (mgr L)\<rparr>"
| "loop_step RestartClear L = L\<lparr>mgr := (mgr L)\<lparr>startPromise := None\<rparr>\<rparr>"

definition run_loop :: "loop_event list \<Rightarrow> loop_state \<Rightarrow> loop_state" where
  "run_loop evs L = fold loop_step evs L"

section \<open>Reading a trace, and auxiliary notions\<close>

text \<open>
  The round trips and the number of \<^verbatim>\<open>proc.kill()\<close> calls in a trace; the request that
  \<^verbatim>\<open>performRequest\<close> sends; the state after a failed health probe and its wait, and
  after \<open>k\<close> of them; what \<^verbatim>\<open>ensureBoundary()\<close> logs; a trace being a prefix of a later
  one; and the invariant of the event loop.
\<close>

fun round_trips :: "event list \<Rightarrow> http_request list" where
  "round_trips [] = []"
| "round_trips (Http rq # evs) = rq # round_trips evs"
| "round_trips (_ # evs) = round_trips evs"

fun kills :: "event list \<Rightarrow> nat" where
  "kills [] = 0"
| "kills (Kill _ # evs) = Suc (kills evs)"
| "kills (_ # evs) = kills evs"

definition round_trip :: "string \<Rightarrow> js_value option \<Rightarrow> http_request" where
  "round_trip endpoint payload = (case payload of Some p \<Rightarrow> Post endpoint p | None \<Rightarrow> Get endpoint)"

definition probe_failed :: "env \<Rightarrow> state \<Rightarrow> state" where
  "probe_failed e s = sleep e 500 (snd (axios e (Get ''/health'') s))"

fun after_probes :: "env \<Rightarrow> nat \<Rightarrow> state \<Rightarrow> state" where
  "after_probes e 0 s = s"
| "after_probes e (Suc k) s = after_probes e k (probe_failed e s)"

definition boundary_log :: "http_result \<Rightarrow> event list" where
  "boundary_log b = (case b of Resolve _ \<Rightarrow> [] | Reject _ \<Rightarrow> [Log ''Failed to ensure boundary cache''])"

definition extends :: "state \<Rightarrow> state \<Rightarrow> bool" where
  "extends s s' = (\<exists>tr. trace s' = trace s @ tr)"


section \<open>Concrete states and workers\<close>

definition idle :: state where
  "idle = \<lparr>process = None, ready = False, startPromise = None, quitting = False,
           spawned = 0, promises = 0, calls = 0, awaits = 0, trace = []\<rparr>"



text \<open>The manager after a first start that found the worker healthy at once.\<close>

definition running :: state where
  "running = \<lparr>process = Some 0, ready = True, startPromise = None, quitting = False,
              spawned = 1, promises = 1, calls = 2, awaits = 2,
              trace = [Spawn 0, Http (Get ''/health''), Http (Post ''/boundary/cache'' (JObj []))]\<rparr>"

definition timed_out :: state where
  "timed_out = \<lparr>process = Some 0, ready = False, startPromise = None, quitting = False,
                spawned = 1, promises = 1, calls = 60, awaits = 120,
                trace = Spawn 0 # concat (replicate 60 [Http (Get ''/health''), Sleep 500])\<rparr>"

definition refused :: thrown where
  "refused = AxiosError \<lparr>response = None, code = Some ''ECONNREFUSED''\<rparr>"

definition server_error :: thrown where
  "server_error =
     AxiosError \<lparr>response = Some \<lparr>status = 500, data = JStr ''Internal Server Error''\<rparr>,
                 code = Some ''ERR_BAD_RESPONSE''\<rparr>"

definition unknown_token :: js_value where
  "unknown_token =
     JObj [(''errors'', JArr [JObj [(''message'', JStr ''Unknown token''), (''line'', JNum 3)]])]"

definition rejection :: thrown where
  "rejection =
     AxiosError \<lparr>response = Some \<lparr>status = 400, data = unknown_token\<rparr>,
                 code = Some ''ERR_BAD_REQUEST''\<rparr>"

definition grid_payload :: js_value where
  "grid_payload = JObj [(''cell_size'', JNum 100)]"

definition mission_payload :: js_value where
  "mission_payload = JObj [(''mission_text'', JStr ''<invalid>'')]"

text \<open>A worker that never answers and never confirms its exit.\<close>

definition unreachable :: env where
  "unreachable =
     \<lparr>respond = (\<lambda>k rq. Reject refused), onKill = (\<lambda>proc. NeverConfirms),
      interrupts = (\<lambda>k. [])\<rparr>"

text \<open>A worker that refuses the first two round trips and answers from the third on.\<close>

definition slow_worker :: env where
  "slow_worker =
     \<lparr>respond = (\<lambda>k rq. if k < 2 then Reject refused else Resolve (JObj [])),
      onKill = (\<lambda>proc. ExitsInTime), interrupts = (\<lambda>k. [])\<rparr>"

text \<open>A worker that answers from round trip 60 on.\<close>

definition late_worker :: env where
  "late_worker =
     \<lparr>respond = (\<lambda>k rq. if k < 60 then Reject refused else Resolve (JObj [])),
      onKill = (\<lambda>proc. ExitsInTime), interrupts = (\<lambda>k. [])\<rparr>"

text \<open>A worker that rejects every request with the same validation error.\<close>

definition validating :: env where
  "validating =
     \<lparr>respond = (\<lambda>k rq. Reject rejection), onKill = (\<lambda>proc. ExitsInTime),
      interrupts = (\<lambda>k. [])\<rparr>"

text \<open>A worker that answers 500 to round trip 2 only, and one that does so to 2 and 4.\<close>

definition flaky :: env where
  "flaky =
     \<lparr>respond = (\<lambda>k rq. if k = 2 then Reject server_error else Resolve (JObj [])),
      onKill = (\<lambda>proc. ExitsInTime), interrupts = (\<lambda>k. [])\<rparr>"

definition cache_flaky :: env where
  "cache_flaky =
     \<lparr>respond = (\<lambda>k rq. if k = 2 \<or> k = 4 then Reject server_error else Resolve (JObj [])),
      onKill = (\<lambda>proc. ExitsInTime), interrupts = (\<lambda>k. [])\<rparr>"

section \<open>Basic facts\<close>

declare restartWorker.simps [simp del] start.simps [simp del] spawnWorker.simps [simp del]
  ensureBoundary.simps [simp del] request.simps [simp del]

subsection \<open>Traces\<close>

lemma round_trips_append [simp]: "round_trips (xs @ ys) = round_trips xs @ round_trips ys"
  by (induction xs rule: round_trips.induct) simp_all

lemma kills_append [simp]: "kills (xs @ ys) = kills xs + kills ys"
  by (induction xs rule: kills.induct) simp_all

lemma round_trips_probes [simp]:
  "round_trips (concat (replicate k [Http rq, Sleep ms])) = replicate k rq"
  by (induction k) simp_all

lemma kills_probes [simp]: "kills (concat (replicate k [Http rq, Sleep ms])) = 0"
  by (induction k) simp_all

subsection \<open>Suspension\<close>

lemma emit_fields [simp]:
  "process (emit ev s) = process s" "ready (emit ev s) = ready s"
  "startPromise (emit ev s) = startPromise s" "quitting (emit ev s) = quitting s"
  "spawned (emit ev s) = spawned s" "promises (emit ev s) = promises s"
  "calls (emit ev s) = calls s" "awaits (emit ev s) = awaits s"
  "trace (emit ev s) = trace s @ [ev]"
  by (simp_all add: emit_def)

lemma run_callback_fields [simp]:
  "quitting (run_callback cb s) = quitting s" "spawned (run_callback cb s) = spawned s"
  "promises (run_callback cb s) = promises s" "calls (run_callback cb s) = calls s"
  "awaits (run_callback cb s) = awaits s" "trace (run_callback cb s) = trace s"
  by (cases cb; simp add: on_exit_def cleanup_def)+

lemma run_callback_ready: "ready (run_callback cb s) \<Longrightarrow> ready s"
  by (cases cb) (simp_all add: on_exit_def cleanup_def)

lemma run_callback_process: "process (run_callback cb s) = None"
  by (cases cb) (simp_all add: on_exit_def cleanup_def)

lemma run_callbacks_fields [simp]:
  "quitting (fold run_callback cbs s) = quitting s" "spawned (fold run_callback cbs s) = spawned s"
  "promises (fold run_callback cbs s) = promises s" "calls (fold run_callback cbs s) = calls s"
  "awaits (fold run_callback cbs s) = awaits s" "trace (fold run_callback cbs s) = trace s"
  by (induction cbs arbitrary: s; simp)+

lemma run_callbacks_ready: "ready (fold run_callback cbs s) \<Longrightarrow> ready s"
  by (induction cbs arbitrary: s) (auto dest: run_callback_ready)

lemma run_callbacks_consistent:
  "(process s = None \<longrightarrow> \<not> ready s) \<Longrightarrow>
   (process (fold run_callback cbs s) = None \<longrightarrow> \<not> ready (fold run_callback cbs s))"
proof (induction cbs arbitrary: s)
  case Nil
  then show ?case by simp
next
  case (Cons cb cbs)
  have "process (run_callback cb s) = None \<longrightarrow> \<not> ready (run_callback cb s)"
    by (cases cb) (simp_all add: on_exit_def cleanup_def)
  from Cons.IH[OF this] show ?case by simp
qed

lemma suspend_fields [simp]:
  "quitting (suspend e s) = quitting s" "spawned (suspend e s) = spawned s"
  "promises (suspend e s) = promises s" "calls (suspend e s) = calls s"
  "awaits (suspend e s) = Suc (awaits s)" "trace (suspend e s) = trace s"
  by (simp_all add: suspend_def)

lemma suspend_ready: "ready (suspend e s) \<Longrightarrow> ready s"
  unfolding suspend_def by (drule run_callbacks_ready) simp

lemma suspend_consistent:
  "(process s = None \<longrightarrow> \<not> ready s) \<Longrightarrow>
   (process (suspend e s) = None \<longrightarrow> \<not> ready (suspend e s))"
  unfolding suspend_def by (rule run_callbacks_consistent) simp

lemma suspend_quiet: "interrupts e (awaits s) = [] \<Longrightarrow> suspend e s = s\<lparr>awaits := Suc (awaits s)\<rparr>"
  by (simp add: suspend_def)

lemma axios_fields [simp]:
  "fst (axios e rq s) = respond e (calls s) rq"
  "quitting (snd (axios e rq s)) = quitting s" "spawned (snd (axios e rq s)) = spawned s"
  "promises (snd (axios e rq s)) = promises s" "calls (snd (axios e rq s)) = Suc (calls s)"
  "awaits (snd (axios e rq s)) = Suc (awaits s)" "trace (snd (axios e rq s)) = trace s @ [Http rq]"
  by (simp_all add: axios_def)

lemma axios_ready: "ready (snd (axios e rq s)) \<Longrightarrow> ready s"
  by (auto simp: axios_def dest: suspend_ready)

lemma axios_consistent:
  "(process s = None \<longrightarrow> \<not> ready s) \<Longrightarrow>
   (process (snd (axios e rq s)) = None \<longrightarrow> \<not> ready (snd (axios e rq s)))"
  unfolding axios_def snd_conv by (rule suspend_consistent) simp

lemma axios_quiet:
  "interrupts e (awaits s) = [] \<Longrightarrow>
   snd (axios e rq s) = s\<lparr>calls := Suc (calls s), awaits := Suc (awaits s), trace := trace s @ [Http rq]\<rparr>"
  by (simp add: axios_def suspend_quiet emit_def)

lemma axios_interrupted:
  "interrupts e (awaits s) = [StaleCleanup] \<Longrightarrow>
   process (snd (axios e rq s)) = None \<and> \<not> ready (snd (axios e rq s))"
  by (simp add: axios_def suspend_def cleanup_def)

lemma sleep_fields [simp]:
  "quitting (sleep e ms s) = quitting s" "spawned (sleep e ms s) = spawned s"
  "promises (sleep e ms s) = promises s" "calls (sleep e ms s) = calls s"
  "awaits (sleep e ms s) = Suc (awaits s)" "trace (sleep e ms s) = trace s @ [Sleep ms]"
  by (simp_all add: sleep_def)

lemma sleep_ready: "ready (sleep e ms s) \<Longrightarrow> ready s"
  by (auto simp: sleep_def dest: suspend_ready)

lemma performRequest_round_trip:
  "performRequest e endpoint payload s = axios e (round_trip endpoint payload) s"
  by (simp add: performRequest_def round_trip_def split: option.splits)

subsection \<open>Stopping\<close>

lemma stop_fields [simp]:
  "fst (stop e s) = Returned ()"
  "calls (snd (stop e s)) = calls s"
  "spawned (snd (stop e s)) = spawned s"
  "promises (snd (stop e s)) = promises s"
  "quitting (snd (stop e s)) = quitting s"
  "round_trips (trace (snd (stop e s))) = round_trips (trace s)"
  by (cases "process s"; cases "onKill e (the (process s))";
      simp add: stop_def cleanup_def on_exit_def)+

lemma stop_kills: "kills (trace (snd (stop e s))) \<le> Suc (kills (trace s))"
  by (cases "process s"; cases "onKill e (the (process s))")
     (simp_all add: stop_def cleanup_def on_exit_def)

lemma stop_clears:
  "process s = None \<longrightarrow> \<not> ready s \<Longrightarrow>
   process (snd (stop e s)) = None \<and> \<not> ready (snd (stop e s))"
  by (cases "process s"; cases "onKill e (the (process s))")
     (simp_all add: stop_def cleanup_def on_exit_def)

lemma stop_extends: "extends s (snd (stop e s))"
  by (cases "process s"; cases "onKill e (the (process s))")
     (simp_all add: stop_def cleanup_def on_exit_def extends_def)

subsection \<open>The readiness probe\<close>

lemma probe_failed_fields [simp]:
  "quitting (probe_failed e s) = quitting s" "spawned (probe_failed e s) = spawned s"
  "promises (probe_failed e s) = promises s" "calls (probe_failed e s) = Suc (calls s)"
  "awaits (probe_failed e s) = Suc (Suc (awaits s))"
  "trace (probe_failed e s) = trace s @ [Http (Get ''/health''), Sleep 500]"
  by (simp_all add: probe_failed_def)

lemma probe_failed_ready: "ready (probe_failed e s) \<Longrightarrow> ready s"
  unfolding probe_failed_def by (blast dest: sleep_ready axios_ready)

lemma after_probes_fields [simp]:
  "quitting (after_probes e k s) = quitting s" "spawned (after_probes e k s) = spawned s"
  "promises (after_probes e k s) = promises s" "calls (after_probes e k s) = calls s + k"
  "trace (after_probes e k s) = trace s @ concat (replicate k [Http (Get ''/health''), Sleep 500])"
  by (induction k arbitrary: s; simp)+

lemma after_probes_ready: "ready (after_probes e k s) \<Longrightarrow> ready s"
  by (induction k arbitrary: s) (auto dest: probe_failed_ready)

lemma waitForReady_loop_reject:
  "attempt < 60 \<Longrightarrow> respond e (calls s) (Get ''/health'') = Reject t \<Longrightarrow>
   waitForReady_loop attempt e s = waitForReady_loop (attempt + 1) e (probe_failed e s)"
  by (subst waitForReady_loop.simps) (simp add: axios_def probe_failed_def)

lemma waitForReady_loop_resolve:
  "attempt < 60 \<Longrightarrow> respond e (calls s) (Get ''/health'') = Resolve v \<Longrightarrow>
   waitForReady_loop attempt e s = (Returned (), (snd (axios e (Get ''/health'') s))\<lparr>ready := True\<rparr>)"
  by (subst waitForReady_loop.simps) (simp add: axios_def)

lemma waitForReady_loop_exhausted:
  "\<not> attempt < 60 \<Longrightarrow>
   waitForReady_loop attempt e s = (Threw (Error (Msg ''Python worker failed to start'')), s)"
  by (subst waitForReady_loop.simps) simp

lemma waitForReady_loop_all_fail:
  "n = 60 - attempt \<Longrightarrow>
   \<forall>i<n. \<exists>t. respond e (calls s + i) (Get ''/health'') = Reject t \<Longrightarrow>
   waitForReady_loop attempt e s =
     (Threw (Error (Msg ''Python worker failed to start'')), after_probes e n s)"
proof (induction n arbitrary: attempt s)
  case 0
  then show ?case by (simp add: waitForReady_loop_exhausted)
next
  case (Suc n)
  from Suc.prems obtain t where t: "respond e (calls s) (Get ''/health'') = Reject t"
    by (metis add.right_neutral zero_less_Suc)
  have a: "\<forall>i<n. \<exists>t. respond e (calls (probe_failed e s) + i) (Get ''/health'') = Reject t"
    using Suc.prems(2) by (metis add_Suc_shift Suc_less_eq probe_failed_fields(4) add_Suc)
  have b: "n = 60 - (attempt + 1)" using Suc.prems(1) by simp
  have lt: "attempt < 60" using Suc.prems(1) by simp
  have "waitForReady_loop attempt e s = waitForReady_loop (attempt + 1) e (probe_failed e s)"
    by (rule waitForReady_loop_reject[OF lt t])
  also note Suc.IH[OF b a]
  finally show ?case by simp
qed

lemma waitForReady_loop_first_success:
  "attempt + k < 60 \<Longrightarrow>
   \<forall>i<k. \<exists>t. respond e (calls s + i) (Get ''/health'') = Reject t \<Longrightarrow>
   respond e (calls s + k) (Get ''/health'') = Resolve v \<Longrightarrow>
   waitForReady_loop attempt e s =
     (Returned (), (snd (axios e (Get ''/health'') (after_probes e k s)))\<lparr>ready := True\<rparr>)"
proof (induction k arbitrary: attempt s)
  case 0
  then show ?case by (simp add: waitForReady_loop_resolve)
next
  case (Suc k)
  from Suc.prems obtain t where t: "respond e (calls s) (Get ''/health'') = Reject t"
    by (metis add.right_neutral zero_less_Suc)
  have a: "\<forall>i<k. \<exists>t. respond e (calls (probe_failed e s) + i) (Get ''/health'') = Reject t"
    using Suc.prems(2) by (metis add_Suc_shift Suc_less_eq probe_failed_fields(4) add_Suc)
  have b: "respond e (calls (probe_failed e s) + k) (Get ''/health'') = Resolve v"
    using Suc.prems(3) by simp
  have d: "attempt + 1 + k < 60" using Suc.prems(1) by simp
  have lt: "attempt < 60" using Suc.prems(1) by simp
  have "waitForReady_loop attempt e s = waitForReady_loop (attempt + 1) e (probe_failed e s)"
    by (rule waitForReady_loop_reject[OF lt t])
  also note Suc.IH[OF d a b]
  finally show ?case by simp
qed

lemma waitForReady_loop_calls:
  "calls (snd (waitForReady_loop attempt e s)) \<le> calls s + (60 - attempt)"
proof (induction attempt e s rule: waitForReady_loop.induct)
  case (1 attempt e s)
  show ?case
  proof (cases "attempt < 60")
    case False
    then show ?thesis by (simp add: waitForReady_loop_exhausted)
  next
    case True
    show ?thesis
    proof (cases "respond e (calls s) (Get ''/health'')")
      case (Resolve v)
      with True show ?thesis by (simp add: waitForReady_loop_resolve)
    next
      case (Reject t)
      have ax: "(Reject t, snd (axios e (Get ''/health'') s)) = axios e (Get ''/health'') s"
        using Reject by (simp add: axios_def)
      have "calls (snd (waitForReady_loop (attempt + 1) e (probe_failed e s))) \<le>
          calls (probe_failed e s) + (60 - (attempt + 1))"
        using "1.IH"[OF True ax refl] by (simp add: probe_failed_def)
      then show ?thesis
        using True by (simp add: waitForReady_loop_reject[OF True Reject])
    qed
  qed
qed

lemma waitForReady_loop_extends: "extends s (snd (waitForReady_loop attempt e s))"
proof (induction attempt e s rule: waitForReady_loop.induct)
  case (1 attempt e s)
  show ?case
  proof (cases "attempt < 60")
    case False
    then show ?thesis by (simp add: waitForReady_loop_exhausted extends_def)
  next
    case True
    show ?thesis
    proof (cases "respond e (calls s) (Get ''/health'')")
      case (Resolve v)
      with True show ?thesis by (simp add: waitForReady_loop_resolve extends_def)
    next
      case (Reject t)
      have ax: "(Reject t, snd (axios e (Get ''/health'') s)) = axios e (Get ''/health'') s"
        using Reject by (simp add: axios_def)
      have "extends (probe_failed e s) (snd (waitForReady_loop (attempt + 1) e (probe_failed e s)))"
        using "1.IH"[OF True ax refl] by (simp add: probe_failed_def)
      then have "extends s (snd (waitForReady_loop (attempt + 1) e (probe_failed e s)))"
        by (auto simp: extends_def)
      then show ?thesis
        by (simp add: waitForReady_loop_reject[OF True Reject])
    qed
  qed
qed

subsection \<open>Requests on a ready manager\<close>

lemma request_ready_resolve:
  assumes "ready s"
    and "respond e (calls s) (round_trip endpoint payload) = Resolve v"
  shows "request (Suc fuel) e endpoint payload s =
     Some (Returned v, snd (axios e (round_trip endpoint payload) s))"
  using assms by (simp add: request.simps performRequest_round_trip axios_def)

lemma request_ready_fatal:
  assumes "ready s"
    and "respond e (calls s) (round_trip endpoint payload) = Reject t"
    and "\<not> shouldAttemptRecovery t"
  shows "request (Suc fuel) e endpoint payload s =
     Some (Threw (normalizeError t), snd (axios e (round_trip endpoint payload) s))"
  using assms by (simp add: request.simps performRequest_round_trip axios_def)

subsection \<open>Starting from a cleared manager\<close>

lemma spawn_process_fields [simp]:
  "process (spawn_process s) = Some (spawned s)" "\<not> ready (spawn_process s)"
  "startPromise (spawn_process s) = startPromise s" "quitting (spawn_process s) = quitting s"
  "spawned (spawn_process s) = Suc (spawned s)" "promises (spawn_process s) = promises s"
  "calls (spawn_process s) = calls s" "awaits (spawn_process s) = awaits s"
  "trace (spawn_process s) = trace s @ [Spawn (spawned s)]"
  by (simp_all add: spawn_process_def)

lemma start_cleared_timeout:
  assumes "\<not> ready s" "startPromise s = None" "process s = None"
    and "\<forall>i<60. \<exists>t. respond e (calls s + i) (Get ''/health'') = Reject t"
  shows "\<exists>s'. start fuel e s = Some (Threw (Error (Msg ''Python worker failed to start'')), s') \<and>
     calls s' = calls s + 60 \<and> spawned s' = Suc (spawned s) \<and> promises s' = Suc (promises s) \<and>
     quitting s' = quitting s \<and> startPromise s' = None \<and> \<not> ready s' \<and>
     trace s' = trace s @ Spawn (spawned s) # concat (replicate 60 [Http (Get ''/health''), Sleep 500])"
proof -
  let ?s0 = "s\<lparr>startPromise := Some (promises s), promises := Suc (promises s)\<rparr>"
  let ?s1 = "spawn_process ?s0"
  let ?s2 = "after_probes e 60 ?s1"
  have "waitForReady e ?s1 = (Threw (Error (Msg ''Python worker failed to start'')), ?s2)"
    unfolding waitForReady_def
    by (rule waitForReady_loop_all_fail) (use assms(4) in simp_all)
  then have st: "start fuel e s =
      Some (Threw (Error (Msg ''Python worker failed to start'')), ?s2\<lparr>startPromise := None\<rparr>)"
    using assms(1-3) by (simp add: start.simps spawnWorker.simps)
  have "\<not> ready ?s2"
    using after_probes_ready[of e 60 ?s1] by auto
  then show ?thesis
    unfolding st by simp
qed

lemma start_cleared_ready:
  assumes "\<not> ready s" "startPromise s = None" "process s = None"
    and "k < 60"
    and "\<forall>i<k. \<exists>t. respond e (calls s + i) (Get ''/health'') = Reject t"
    and "respond e (calls s + k) (Get ''/health'') = Resolve v"
    and "respond e (calls s + k + 1) (Post ''/boundary/cache'' (JObj [])) = b"
    and "\<forall>t. b = Reject t \<longrightarrow> \<not> shouldAttemptRecovery t"
  shows "\<exists>s'. start (Suc fuel) e s = Some (Returned (), s') \<and>
     calls s' = calls s + k + 2 \<and> spawned s' = Suc (spawned s) \<and> promises s' = Suc (promises s) \<and>
     quitting s' = quitting s \<and> startPromise s' = None \<and>
     trace s' = trace s @ Spawn (spawned s) #
                concat (replicate k [Http (Get ''/health''), Sleep 500]) @
                [Http (Get ''/health''), Http (Post ''/boundary/cache'' (JObj []))] @
                boundary_log b"
proof -
  let ?s0 = "s\<lparr>startPromise := Some (promises s), promises := Suc (promises s)\<rparr>"
  let ?s1 = "spawn_process ?s0"
  let ?s2 = "(snd (axios e (Get ''/health'') (after_probes e k ?s1)))\<lparr>ready := True\<rparr>"
  let ?s3 = "snd (axios e (Post ''/boundary/cache'' (JObj [])) ?s2)"
  have w: "waitForReady e ?s1 = (Returned (), ?s2)"
    unfolding waitForReady_def
    by (rule waitForReady_loop_first_success[where v = v]) (use assms(4-6) in simp_all)
  have r2: "ready ?s2" by simp
  have rt: "round_trip ''/boundary/cache'' (Some (JObj [])) = Post ''/boundary/cache'' (JObj [])"
    by (simp add: round_trip_def)
  have c2: "calls ?s2 = calls s + k + 1" by simp
  have "\<exists>s4. ensureBoundary (Suc fuel) e ?s2 = Some (Returned (), s4) \<and>
      calls s4 = calls ?s3 \<and> spawned s4 = spawned ?s3 \<and> promises s4 = promises ?s3 \<and>
      quitting s4 = quitting ?s3 \<and> trace s4 = trace ?s3 @ boundary_log b"
  proof (cases b)
    case (Resolve x)
    then have "respond e (calls ?s2) (round_trip ''/boundary/cache'' (Some (JObj []))) = Resolve x"
      using assms(7) c2 rt by simp
    from request_ready_resolve[OF r2 this, of fuel] show ?thesis
      using Resolve by (simp add: ensureBoundary.simps rt boundary_log_def)
  next
    case (Reject t)
    then have a: "respond e (calls ?s2) (round_trip ''/boundary/cache'' (Some (JObj []))) = Reject t"
      using assms(7) c2 rt by simp
    have b: "\<not> shouldAttemptRecovery t" using assms(8) Reject by simp
    from request_ready_fatal[OF r2 a b, of fuel] show ?thesis
      using Reject by (simp add: ensureBoundary.simps rt boundary_log_def)
  qed
  then obtain s4 where eb: "ensureBoundary (Suc fuel) e ?s2 = Some (Returned (), s4)"
    and f4: "calls s4 = calls ?s3" "spawned s4 = spawned ?s3" "promises s4 = promises ?s3"
      "quitting s4 = quitting ?s3" "trace s4 = trace ?s3 @ boundary_log b"
    by blast
  have st: "start (Suc fuel) e s = Some (Returned (), s4\<lparr>startPromise := None\<rparr>)"
    using assms(1-3) w eb by (simp add: start.simps spawnWorker.simps)
  show ?thesis
    unfolding st by (simp add: f4)
qed

subsection \<open>Restarting after a transient failure\<close>

lemma restartWorker_stop_start:
  "restartWorker fuel e s = start fuel e ((snd (stop e s))\<lparr>startPromise := None\<rparr>)"
  using stop_fields(1)[of e s] by (cases "stop e s") (simp add: restartWorker.simps)

subsection \<open>The trace only grows\<close>

lemma extends_refl [simp]: "extends s s"
  by (simp add: extends_def)

lemma extends_trans: "extends s s1 \<Longrightarrow> extends s1 s2 \<Longrightarrow> extends s s2"
  by (auto simp: extends_def)

lemma axios_extends: "extends s (snd (axios e rq s))"
  by (simp add: extends_def)

lemma performRequest_extends: "extends s (snd (performRequest e endpoint payload s))"
  by (simp add: performRequest_round_trip axios_extends)

lemma trace_extends:
  "restartWorker fuel e s = Some (c1, s1) \<Longrightarrow> extends s s1"
  "start fuel e s = Some (c1, s1) \<Longrightarrow> extends s s1"
  "spawnWorker fuel e s = Some (c1, s1) \<Longrightarrow> extends s s1"
  "ensureBoundary fuel e s = Some (c1, s1) \<Longrightarrow> extends s s1"
  "request fuel e endpoint payload s = Some (c2, s1) \<Longrightarrow> extends s s1"
proof (induction fuel e s and fuel e s and fuel e s and fuel e s and fuel e endpoint payload s
    arbitrary: c1 s1 and c1 s1 and c1 s1 and c1 s1 and c2 s1
    rule: restartWorker_start_spawnWorker_ensureBoundary_request.induct)
  case (1 fuel e s)
  have "start fuel e ((snd (stop e s))\<lparr>startPromise := None\<rparr>) = Some (c1, s1)"
    using "1.prems" by (simp add: restartWorker_stop_start)
  moreover have "(Returned (), snd (stop e s)) = stop e s"
    using stop_fields(1)[of e s] by (metis prod.collapse)
  ultimately have "extends ((snd (stop e s))\<lparr>startPromise := None\<rparr>) s1"
    using "1.IH"[OF _ refl] by blast
  then have "extends (snd (stop e s)) s1" by (simp add: extends_def)
  with stop_extends[of s e] show ?case by (rule extends_trans)
next
  case (2 fuel e s)
  show ?case
  proof (cases "ready s")
    case True
    with "2.prems" show ?thesis by (simp add: start.simps)
  next
    case False
    show ?thesis
    proof (cases "startPromise s")
      case (Some p)
      with False "2.prems" show ?thesis by (simp add: start.simps)
    next
      case None
      let ?s0 = "s\<lparr>startPromise := Some (promises s), promises := Suc (promises s)\<rparr>"
      from False None "2.prems" obtain s2 where
        sw: "spawnWorker fuel e ?s0 = Some (c1, s2)" and s1: "s1 = s2\<lparr>startPromise := None\<rparr>"
        by (auto simp: start.simps split: option.splits)
      from "2.IH"[OF False None sw] have "extends ?s0 s2" .
      then show ?thesis using s1 by (simp add: extends_def)
    qed
  qed
next
  case (3 fuel e s)
  show ?case
  proof (cases "process s")
    case (Some p)
    with "3.prems" show ?thesis by (simp add: spawnWorker.simps)
  next
    case None
    obtain c s2 where w: "waitForReady e (spawn_process s) = (c, s2)" by fastforce
    have e1: "extends s s2"
    proof -
      have "extends (spawn_process s) s2"
        using waitForReady_loop_extends[of "spawn_process s" 0 e] w by (simp add: waitForReady_def)
      then show ?thesis by (auto simp: extends_def)
    qed
    show ?thesis
    proof (cases c)
      case (Returned u)
      with None w "3.prems" have "ensureBoundary fuel e s2 = Some (c1, s1)"
        by (simp add: spawnWorker.simps)
      from "3.IH"[OF None w[symmetric] Returned this] have "extends s2 s1" .
      with e1 show ?thesis by (rule extends_trans)
    next
      case (Threw x)
      with None w "3.prems" e1 show ?thesis by (simp add: spawnWorker.simps)
    next
      case (Awaits p)
      with None w "3.prems" e1 show ?thesis by (simp add: spawnWorker.simps)
    qed
  qed
next
  case (4 fuel e s)
  from "4.prems" obtain c s2 where
    r: "request fuel e ''/boundary/cache'' (Some (JObj [])) s = Some (c, s2)"
    and tr: "trace s1 = trace s2 \<or> trace s1 = trace s2 @ [Log ''Failed to ensure boundary cache'']"
    by (auto simp: ensureBoundary.simps split: option.splits completion.splits)
  from "4.IH"[OF r] have "extends s s2" .
  with tr show ?case by (auto simp: extends_def)
next
  case (5 e endpoint payload s)
  then show ?case by (simp add: request.simps)
next
  case (6 fuel e endpoint payload s)
  let ?pre = "if \<not> ready s then start fuel e s else Some (Returned (), s)"
  from "6.prems" obtain c0 s2 where pre: "?pre = Some (c0, s2)"
    by (cases ?pre) (auto simp: request.simps)
  have e2: "extends s s2"
    using pre "6.IH"(1) by (cases "ready s") auto
  show ?case
  proof (cases c0)
    case (Threw x)
    with pre "6.prems" e2 show ?thesis by (simp add: request.simps)
  next
    case (Awaits p)
    with pre "6.prems" e2 show ?thesis by (simp add: request.simps)
  next
    case (Returned u)
    obtain r s3 where pr: "performRequest e endpoint payload s2 = (r, s3)" by fastforce
    have e3: "extends s s3"
      using extends_trans[OF e2 performRequest_extends[of s2 e endpoint payload]] pr by simp
    show ?thesis
    proof (cases r)
      case (Resolve v)
      with pre Returned pr "6.prems" e3 show ?thesis by (simp add: request.simps)
    next
      case (Reject err)
      show ?thesis
      proof (cases "shouldAttemptRecovery err")
        case False
        with pre Returned pr Reject "6.prems" e3 show ?thesis by (simp add: request.simps)
      next
        case True
        from pre Returned pr Reject True "6.prems" obtain c4 s4 where
          rw: "restartWorker fuel e s3 = Some (c4, s4)"
          by (cases "restartWorker fuel e s3") (auto simp: request.simps)
        have "extends s3 s4"
          using "6.IH"(2)[OF pre refl Returned pr[symmetric] Reject True rw] .
        with e3 have e4: "extends s s4" by (rule extends_trans)
        show ?thesis
        proof (cases c4)
          case (Threw x)
          with pre Returned pr Reject True rw "6.prems" e4 show ?thesis by (simp add: request.simps)
        next
          case (Awaits p)
          with pre Returned pr Reject True rw "6.prems" e4 show ?thesis by (simp add: request.simps)
        next
          case Returned2: (Returned u2)
          obtain r5 s5 where p5: "performRequest e endpoint payload s4 = (r5, s5)" by fastforce
          have e5: "extends s s5"
            using extends_trans[OF e4 performRequest_extends[of s4 e endpoint payload]] p5 by simp
          from pre Returned pr Reject True rw Returned2 p5 "6.prems" have "s1 = s5"
            by (cases r5) (simp_all add: request.simps)
          with e5 show ?thesis by simp
        qed
      qed
    qed
  qed
qed

lemma request_ready_first_call:
  assumes "ready s" and "request (Suc fuel) e endpoint payload s = Some (c, s1)"
  shows "extends (snd (axios e (round_trip endpoint payload) s)) s1"
proof -
  let ?s3 = "snd (axios e (round_trip endpoint payload) s)"
  let ?r = "respond e (calls s) (round_trip endpoint payload)"
  have pr: "performRequest e endpoint payload s = (?r, ?s3)"
    by (simp add: performRequest_round_trip axios_def)
  show ?thesis
  proof (cases ?r)
    case (Resolve v)
    with assms pr show ?thesis by (simp add: request.simps)
  next
    case (Reject err)
    show ?thesis
    proof (cases "shouldAttemptRecovery err")
      case False
      with assms pr Reject show ?thesis by (simp add: request.simps)
    next
      case True
      from assms pr Reject True obtain c4 s4 where
        rw: "restartWorker fuel e ?s3 = Some (c4, s4)"
        by (cases "restartWorker fuel e ?s3") (auto simp: request.simps)
      have e4: "extends ?s3 s4" using trace_extends(1)[OF rw] .
      show ?thesis
      proof (cases c4)
        case (Threw x)
        with assms pr Reject True rw e4 show ?thesis by (simp add: request.simps)
      next
        case (Awaits q)
        with assms pr Reject True rw e4 show ?thesis by (simp add: request.simps)
      next
        case (Returned u)
        obtain r5 s5 where p5: "performRequest e endpoint payload s4 = (r5, s5)" by fastforce
        have e5: "extends ?s3 s5"
          using extends_trans[OF e4 performRequest_extends[of s4 e endpoint payload]] p5 by simp
        from assms pr Reject True rw Returned p5 have "s1 = s5"
          by (cases r5) (simp_all add: request.simps)
        with e5 show ?thesis by simp
      qed
    qed
  qed
qed

subsection \<open>The event loop\<close>

lemma run_loop_Nil [simp]: "run_loop [] L = L"
  by (simp add: run_loop_def)







section \<open>Classification of failures\<close>

text \<open>
  C3.  \<^verbatim>\<open>shouldAttemptRecovery\<close> answers true exactly for an axios error that carries a
  response with status 500 or more, or whose code is one of \<^verbatim>\<open>ECONNREFUSED\<close>,
  \<^verbatim>\<open>ECONNRESET\<close>, \<^verbatim>\<open>ETIMEDOUT\<close>.  Any other failure of the round trip of a ready
  manager is thrown to the caller after \<^verbatim>\<open>normalizeError\<close>, and the round trip is the
  only effect of the request: nothing is killed or spawned.
\<close>

theorem shouldAttemptRecovery_exact:
  "(shouldAttemptRecovery t \<longleftrightarrow>
     (\<exists>err. t = AxiosError err \<and>
        ((\<exists>r. response err = Some r \<and> 500 \<le> status r) \<or>
         (\<exists>c. code err = Some c \<and> c \<in> {''ECONNREFUSED'', ''ECONNRESET'', ''ETIMEDOUT''})))) \<and>
   (ready s \<and> respond e (calls s) (round_trip endpoint payload) = Reject t \<and>
    \<not> shouldAttemptRecovery t \<longrightarrow>
      (\<exists>s'. request (Suc fuel) e endpoint payload s = Some (Threw (normalizeError t), s') \<and>
            trace s' = trace s @ [Http (round_trip endpoint payload)] \<and>
            spawned s' = spawned s))"
proof
  show "shouldAttemptRecovery t \<longleftrightarrow>
     (\<exists>err. t = AxiosError err \<and>
        ((\<exists>r. response err = Some r \<and> 500 \<le> status r) \<or>
         (\<exists>c. code err = Some c \<and> c \<in> {''ECONNREFUSED'', ''ECONNRESET'', ''ETIMEDOUT''})))"
    by (cases t) (auto simp: TRANSIENT_ERROR_CODES_def split: option.splits)
next
  show "ready s \<and> respond e (calls s) (round_trip endpoint payload) = Reject t \<and>
    \<not> shouldAttemptRecovery t \<longrightarrow>
      (\<exists>s'. request (Suc fuel) e endpoint payload s = Some (Threw (normalizeError t), s') \<and>
            trace s' = trace s @ [Http (round_trip endpoint payload)] \<and>
            spawned s' = spawned s)"
    using request_ready_fatal[of s e endpoint payload t fuel] by simp
qed

theorem shouldAttemptRecovery_exact_witness:
  "shouldAttemptRecovery refused \<and> shouldAttemptRecovery server_error \<and>
   \<not> shouldAttemptRecovery rejection \<and>
   (\<exists>s'. request 1 validating ''/mission/compile'' (Some (JObj [])) running =
            Some (Threw (Error (JSON_stringify unknown_token)), s') \<and>
          trace s' = trace running @ [Http (Post ''/mission/compile'' (JObj []))] \<and>
          spawned s' = 1)"
proof -
  have "\<exists>err. refused = AxiosError err \<and>
        ((\<exists>r. response err = Some r \<and> 500 \<le> status r) \<or>
         (\<exists>c. code err = Some c \<and> c \<in> {''ECONNREFUSED'', ''ECONNRESET'', ''ETIMEDOUT''}))"
    by (simp add: refused_def)
  then have a: "shouldAttemptRecovery refused"
    using conjunct1[OF shouldAttemptRecovery_exact, of refused] by blast
  have "\<exists>err. server_error = AxiosError err \<and>
        ((\<exists>r. response err = Some r \<and> 500 \<le> status r) \<or>
         (\<exists>c. code err = Some c \<and> c \<in> {''ECONNREFUSED'', ''ECONNRESET'', ''ETIMEDOUT''}))"
    by (simp add: server_error_def)
  then have a': "shouldAttemptRecovery server_error"
    using conjunct1[OF shouldAttemptRecovery_exact, of server_error] by blast
  have "\<not> (\<exists>err. rejection = AxiosError err \<and>
        ((\<exists>r. response err = Some r \<and> 500 \<le> status r) \<or>
         (\<exists>c. code err = Some c \<and> c \<in> {''ECONNREFUSED'', ''ECONNRESET'', ''ETIMEDOUT''})))"
    by (simp add: rejection_def)
  then have b: "\<not> shouldAttemptRecovery rejection"
    using conjunct1[OF shouldAttemptRecovery_exact, of rejection] by blast
  have c: "ready running \<and>
      respond validating (calls running) (round_trip ''/mission/compile'' (Some (JObj []))) = Reject rejection"
    by (simp add: running_def validating_def)
  have "\<exists>s'. request (Suc 0) validating ''/mission/compile'' (Some (JObj [])) running =
            Some (Threw (normalizeError rejection), s') \<and>
          trace s' = trace running @ [Http (round_trip ''/mission/compile'' (Some (JObj [])))] \<and>
          spawned s' = spawned running"
    using conjunct2[OF shouldAttemptRecovery_exact, of running validating "''/mission/compile''"
        "Some (JObj [])" rejection 0] b c
    by blast
  then have "\<exists>s'. request 1 validating ''/mission/compile'' (Some (JObj [])) running =
            Some (Threw (Error (JSON_stringify unknown_token)), s') \<and>
          trace s' = trace running @ [Http (Post ''/mission/compile'' (JObj []))] \<and>
          spawned s' = 1"
    by (simp add: rejection_def unknown_token_def running_def round_trip_def)
  with a a' b show ?thesis by blast
qed

section \<open>The readiness probe\<close>

text \<open>
  C4.  \<^verbatim>\<open>waitForReady\<close> issues at most 60 GETs of \<^verbatim>\<open>/health\<close>.  When the first \<open>k\<close>
  answers are failures, each is followed by a wait of 500 ms; a success at attempt
  \<open>k < 60\<close> ends the loop, sets \<^verbatim>\<open>ready\<close> and returns; 60 failures end in the error
  \<^verbatim>\<open>Python worker failed to start\<close>.
\<close>

theorem waitForReady_probe:
  "calls (snd (waitForReady e s)) \<le> calls s + 60 \<and>
   (k \<le> 60 \<and> (\<forall>i<k. \<exists>t. respond e (calls s + i) (Get ''/health'') = Reject t) \<and>
    (k < 60 \<longrightarrow> (\<exists>v. respond e (calls s + k) (Get ''/health'') = Resolve v)) \<longrightarrow>
    fst (waitForReady e s) =
      (if k < 60 then Returned () else Threw (Error (Msg ''Python worker failed to start''))) \<and>
    (k < 60 \<longrightarrow> ready (snd (waitForReady e s))) \<and>
    calls (snd (waitForReady e s)) = calls s + (if k < 60 then k + 1 else 60) \<and>
    trace (snd (waitForReady e s)) =
      trace s @ concat (replicate k [Http (Get ''/health''), Sleep 500]) @
      (if k < 60 then [Http (Get ''/health'')] else []))"
proof (intro conjI impI)
  show "calls (snd (waitForReady e s)) \<le> calls s + 60"
    using waitForReady_loop_calls[of 0 e s] by (simp add: waitForReady_def)
next
  assume h: "k \<le> 60 \<and> (\<forall>i<k. \<exists>t. respond e (calls s + i) (Get ''/health'') = Reject t) \<and>
    (k < 60 \<longrightarrow> (\<exists>v. respond e (calls s + k) (Get ''/health'') = Resolve v))"
  have w: "waitForReady e s =
      (if k < 60 then (Returned (), (snd (axios e (Get ''/health'') (after_probes e k s)))\<lparr>ready := True\<rparr>)
       else (Threw (Error (Msg ''Python worker failed to start'')), after_probes e k s))"
  proof (cases "k < 60")
    case True
    with h obtain v where "respond e (calls s + k) (Get ''/health'') = Resolve v" by blast
    with True h show ?thesis
      using waitForReady_loop_first_success[of 0 k e s v] by (simp add: waitForReady_def)
  next
    case False
    with h have "k = 60" by simp
    with h show ?thesis
      using waitForReady_loop_all_fail[of 60 0 e s] by (simp add: waitForReady_def)
  qed
  show "fst (waitForReady e s) =
      (if k < 60 then Returned () else Threw (Error (Msg ''Python worker failed to start'')))"
    by (simp add: w)
  show "ready (snd (waitForReady e s))" if "k < 60"
    using that by (simp add: w)
  show "calls (snd (waitForReady e s)) = calls s + (if k < 60 then k + 1 else 60)"
    using h by (simp add: w)
  show "trace (snd (waitForReady e s)) =
      trace s @ concat (replicate k [Http (Get ''/health''), Sleep 500]) @
      (if k < 60 then [Http (Get ''/health'')] else [])"
    by (simp add: w)
qed

theorem waitForReady_probe_witness:
  "fst (waitForReady unreachable idle) = Threw (Error (Msg ''Python worker failed to start'')) \<and>
   calls (snd (waitForReady unreachable idle)) = 60 \<and>
   trace (snd (waitForReady unreachable idle)) =
     concat (replicate 60 [Http (Get ''/health''), Sleep 500]) \<and>
   fst (waitForReady slow_worker idle) = Returned () \<and>
   ready (snd (waitForReady slow_worker idle)) \<and>
   calls (snd (waitForReady slow_worker idle)) = 3 \<and>
   trace (snd (waitForReady slow_worker idle)) =
     [Http (Get ''/health''), Sleep 500, Http (Get ''/health''), Sleep 500, Http (Get ''/health'')]"
proof -
  have "(60::nat) \<le> 60 \<and>
      (\<forall>i<60. \<exists>t. respond unreachable (calls idle + i) (Get ''/health'') = Reject t) \<and>
      ((60::nat) < 60 \<longrightarrow> (\<exists>v. respond unreachable (calls idle + 60) (Get ''/health'') = Resolve v))"
    by (simp add: unreachable_def)
  with conjunct2[OF waitForReady_probe, of 60 unreachable idle]
  have a: "fst (waitForReady unreachable idle) = Threw (Error (Msg ''Python worker failed to start''))"
    "calls (snd (waitForReady unreachable idle)) = 60"
    "trace (snd (waitForReady unreachable idle)) =
       concat (replicate 60 [Http (Get ''/health''), Sleep 500])"
    by (simp_all add: idle_def)
  have "(2::nat) \<le> 60 \<and>
      (\<forall>i<2. \<exists>t. respond slow_worker (calls idle + i) (Get ''/health'') = Reject t) \<and>
      ((2::nat) < 60 \<longrightarrow> (\<exists>v. respond slow_worker (calls idle + 2) (Get ''/health'') = Resolve v))"
    by (simp add: slow_worker_def idle_def)
  with conjunct2[OF waitForReady_probe, of 2 slow_worker idle]
  have b: "fst (waitForReady slow_worker idle) = Returned ()"
    "ready (snd (waitForReady slow_worker idle))"
    "calls (snd (waitForReady slow_worker idle)) = 3"
    "trace (snd (waitForReady slow_worker idle)) =
       [Http (Get ''/health''), Sleep 500, Http (Get ''/health''), Sleep 500, Http (Get ''/health'')]"
    by (simp_all add: idle_def numeral_2_eq_2)
  from a b show ?thesis by blast
qed

section \<open>Stopping the worker\<close>

text \<open>
  C5.  When the worker does not confirm its exit before the 2000 ms timer fires,
  \<^verbatim>\<open>stop()\<close> still returns, with the process handle cleared and \<^verbatim>\<open>ready\<close> false.
\<close>

theorem stop_unconfirmed_exit:
  "process s = Some proc \<and> onKill e proc = NeverConfirms \<longrightarrow>
   fst (stop e s) = Returned () \<and>
   process (snd (stop e s)) = None \<and> \<not> ready (snd (stop e s)) \<and>
   trace (snd (stop e s)) = trace s @ [Kill proc, SetTimeout 2000]"
  by (simp add: stop_def cleanup_def)

theorem stop_unconfirmed_exit_witness:
  "fst (stop unreachable running) = Returned () \<and>
   process (snd (stop unreachable running)) = None \<and> \<not> ready (snd (stop unreachable running)) \<and>
   trace (snd (stop unreachable running)) = trace running @ [Kill 0, SetTimeout 2000]"
  using stop_unconfirmed_exit[of running 0 unreachable]
  by (simp add: running_def unreachable_def)



lemma quiet_after_probes:
  assumes "\<And>k. interrupts e k = []"
  shows "after_probes e k s =
      s\<lparr>calls := calls s + k, awaits := awaits s + 2 * k,
        trace := trace s @ concat (replicate k [Http (Get ''/health''), Sleep 500])\<rparr>"
proof -
  have q: "\<And>s. suspend e s = s\<lparr>awaits := Suc (awaits s)\<rparr>"
    by (simp add: suspend_def assms)
  have pf: "\<And>s. probe_failed e s =
      s\<lparr>calls := Suc (calls s), awaits := Suc (Suc (awaits s)),
        trace := trace s @ [Http (Get ''/health''), Sleep 500]\<rparr>"
    by (simp add: probe_failed_def sleep_def axios_def q emit_def)
  show ?thesis
    by (induction k arbitrary: s) (simp_all add: pf)
qed

lemma running_reachable: "start 1 flaky idle = Some (Returned (), running)"
  by (simp add: request.simps start.simps spawnWorker.simps ensureBoundary.simps
      waitForReady_def waitForReady_loop.simps performRequest_def axios_def suspend_def
      emit_def spawn_process_def flaky_def idle_def running_def)

lemma running_fields:
  "process running = Some 0" "ready running" "startPromise running = None"
  "\<not> quitting running" "spawned running = 1" "promises running = 1"
  "calls running = 2" "awaits running = 2"
  by (simp_all add: running_def)

section \<open>Requests against a ready worker\<close>



text \<open>
  C10.  The round trip of a ready worker fails with a transient classification and the
  respawned worker fails all 60 health probes.  Then \<^verbatim>\<open>request()\<close> throws the startup
  error \<^verbatim>\<open>Python worker failed to start\<close>, not the transient error.  It has issued 61
  round trips, the failed one and the 60 probes, so the round trip was not issued again;
  it has spawned one worker and killed at most one.
\<close>

theorem request_restart_failure:
  "ready s \<and> process s = Some proc \<and>
   respond e (calls s) (round_trip endpoint payload) = Reject t \<and> shouldAttemptRecovery t \<and>
   (\<forall>i<60. \<exists>t'. respond e (calls s + 1 + i) (Get ''/health'') = Reject t') \<longrightarrow>
   (\<exists>s'. request (Suc fuel) e endpoint payload s =
            Some (Threw (Error (Msg ''Python worker failed to start'')), s') \<and>
          calls s' = calls s + 61 \<and> spawned s' = Suc (spawned s) \<and>
          kills (trace s') \<le> Suc (kills (trace s)) \<and>
          round_trips (trace s') =
            round_trips (trace s) @ round_trip endpoint payload # replicate 60 (Get ''/health''))"
proof
  assume "ready s \<and> process s = Some proc \<and>
   respond e (calls s) (round_trip endpoint payload) = Reject t \<and> shouldAttemptRecovery t \<and>
   (\<forall>i<60. \<exists>t'. respond e (calls s + 1 + i) (Get ''/health'') = Reject t')"
  then have hs: "ready s" "process s = Some proc"
    "respond e (calls s) (round_trip endpoint payload) = Reject t"
    "shouldAttemptRecovery t"
    "\<forall>i<60. \<exists>t'. respond e (calls s + 1 + i) (Get ''/health'') = Reject t'"
    by simp_all
  let ?s0 = "snd (axios e (round_trip endpoint payload) s)"
  let ?s1 = "snd (stop e ?s0)"
  let ?s2 = "?s1\<lparr>startPromise := None\<rparr>"
  have "process ?s0 = None \<longrightarrow> \<not> ready ?s0"
    by (rule axios_consistent) (simp add: hs(2))
  from stop_clears[OF this, of e]
  have cl: "\<not> ready ?s2" "startPromise ?s2 = None" "process ?s2 = None"
    by simp_all
  have "\<forall>i<60. \<exists>t'. respond e (calls ?s2 + i) (Get ''/health'') = Reject t'"
    using hs(5) by simp
  from start_cleared_timeout[OF cl this, of fuel] obtain s' where
    st: "start fuel e ?s2 = Some (Threw (Error (Msg ''Python worker failed to start'')), s')"
    and f: "calls s' = calls ?s2 + 60" "spawned s' = Suc (spawned ?s2)"
      "trace s' = trace ?s2 @ Spawn (spawned ?s2) # concat (replicate 60 [Http (Get ''/health''), Sleep 500])"
    by blast
  have rq: "request (Suc fuel) e endpoint payload s =
      Some (Threw (Error (Msg ''Python worker failed to start'')), s')"
    using hs(1,3,4) st
    by (simp add: request.simps performRequest_round_trip restartWorker_stop_start axios_def)
  have k: "kills (trace ?s1) \<le> Suc (kills (trace s))"
    using stop_kills[of e ?s0] by simp
  show "\<exists>s'. request (Suc fuel) e endpoint payload s =
            Some (Threw (Error (Msg ''Python worker failed to start'')), s') \<and>
          calls s' = calls s + 61 \<and> spawned s' = Suc (spawned s) \<and>
          kills (trace s') \<le> Suc (kills (trace s)) \<and>
          round_trips (trace s') =
            round_trips (trace s) @ round_trip endpoint payload # replicate 60 (Get ''/health'')"
    unfolding rq using k by (simp add: f)
qed

theorem request_restart_failure_witness:
  "\<exists>s'. request 1 unreachable ''/grid/build'' (Some grid_payload) running =
            Some (Threw (Error (Msg ''Python worker failed to start'')), s') \<and>
          calls s' = 63 \<and> spawned s' = 2 \<and> kills (trace s') \<le> 1 \<and>
          round_trips (trace s') =
            [Get ''/health'', Post ''/boundary/cache'' (JObj []), Post ''/grid/build'' grid_payload] @
            replicate 60 (Get ''/health'')"
proof -
  have "ready running \<and> process running = Some 0 \<and>
    respond unreachable (calls running) (round_trip ''/grid/build'' (Some grid_payload)) = Reject refused \<and>
    shouldAttemptRecovery refused \<and>
    (\<forall>i<60. \<exists>t'. respond unreachable (calls running + 1 + i) (Get ''/health'') = Reject t')"
    by (simp add: running_def unreachable_def refused_def TRANSIENT_ERROR_CODES_def)
  with request_restart_failure[of running 0 unreachable "''/grid/build''" "Some grid_payload" refused 0]
  have "\<exists>s'. request (Suc 0) unreachable ''/grid/build'' (Some grid_payload) running =
            Some (Threw (Error (Msg ''Python worker failed to start'')), s') \<and>
          calls s' = calls running + 61 \<and> spawned s' = Suc (spawned running) \<and>
          kills (trace s') \<le> Suc (kills (trace running)) \<and>
          round_trips (trace s') =
            round_trips (trace running) @ round_trip ''/grid/build'' (Some grid_payload) #
            replicate 60 (Get ''/health'')"
    by blast
  then show ?thesis
    by (simp add: running_def round_trip_def numeral_2_eq_2)
qed

text \<open>
  C2, as the code has it.  The round trip of a ready worker fails with a transient
  classification; \<^verbatim>\<open>request()\<close> runs \<^verbatim>\<open>restartWorker()\<close>.  When the respawned worker
  answers a health probe within the 60 attempts and the \<^verbatim>\<open>/boundary/cache\<close> call of that
  start does not itself fail with a transient classification, the request has killed at
  most one worker and spawned exactly one, and it issues the round trip exactly once
  more; its result is the result of that second round trip, a failure being thrown as it
  is.
\<close>

theorem request_transient_retry:
  "ready s \<and> process s = Some proc \<and>
   respond e (calls s) (round_trip endpoint payload) = Reject t \<and> shouldAttemptRecovery t \<and>
   k < 60 \<and> (\<forall>i<k. \<exists>t'. respond e (calls s + 1 + i) (Get ''/health'') = Reject t') \<and>
   respond e (calls s + 1 + k) (Get ''/health'') = Resolve v \<and>
   respond e (calls s + k + 2) (Post ''/boundary/cache'' (JObj [])) = b \<and>
   (\<forall>t'. b = Reject t' \<longrightarrow> \<not> shouldAttemptRecovery t') \<longrightarrow>
   (\<exists>s'. request (Suc (Suc fuel)) e endpoint payload s =
            Some ((case respond e (calls s + k + 3) (round_trip endpoint payload) of
                     Resolve x \<Rightarrow> Returned x
                   | Reject t2 \<Rightarrow> Threw t2), s') \<and>
          calls s' = calls s + k + 4 \<and> spawned s' = Suc (spawned s) \<and>
          kills (trace s') \<le> Suc (kills (trace s)) \<and>
          round_trips (trace s') =
            round_trips (trace s) @ round_trip endpoint payload #
            replicate (Suc k) (Get ''/health'') @
            [Post ''/boundary/cache'' (JObj []), round_trip endpoint payload])"
proof
  assume "ready s \<and> process s = Some proc \<and>
   respond e (calls s) (round_trip endpoint payload) = Reject t \<and> shouldAttemptRecovery t \<and>
   k < 60 \<and> (\<forall>i<k. \<exists>t'. respond e (calls s + 1 + i) (Get ''/health'') = Reject t') \<and>
   respond e (calls s + 1 + k) (Get ''/health'') = Resolve v \<and>
   respond e (calls s + k + 2) (Post ''/boundary/cache'' (JObj [])) = b \<and>
   (\<forall>t'. b = Reject t' \<longrightarrow> \<not> shouldAttemptRecovery t')"
  then have hs: "ready s" "process s = Some proc"
    "respond e (calls s) (round_trip endpoint payload) = Reject t"
    "shouldAttemptRecovery t"
    "k < 60"
    "\<forall>i<k. \<exists>t'. respond e (calls s + 1 + i) (Get ''/health'') = Reject t'"
    "respond e (calls s + 1 + k) (Get ''/health'') = Resolve v"
    "respond e (calls s + k + 2) (Post ''/boundary/cache'' (JObj [])) = b"
    "\<forall>t'. b = Reject t' \<longrightarrow> \<not> shouldAttemptRecovery t'"
    by simp_all
  let ?rq = "round_trip endpoint payload"
  let ?s0 = "snd (axios e ?rq s)"
  let ?s1 = "snd (stop e ?s0)"
  let ?s2 = "?s1\<lparr>startPromise := None\<rparr>"
  have "process ?s0 = None \<longrightarrow> \<not> ready ?s0"
    by (rule axios_consistent) (simp add: hs(2))
  from stop_clears[OF this, of e]
  have cl: "\<not> ready ?s2" "startPromise ?s2 = None" "process ?s2 = None"
    by simp_all
  have a: "\<forall>i<k. \<exists>t'. respond e (calls ?s2 + i) (Get ''/health'') = Reject t'"
    using hs(6) by simp
  have b: "respond e (calls ?s2 + k) (Get ''/health'') = Resolve v"
    using hs(7) by simp
  have d: "respond e (calls ?s2 + k + 1) (Post ''/boundary/cache'' (JObj [])) = b"
    using hs(8) by simp
  from start_cleared_ready[OF cl hs(5) a b d hs(9), of fuel] obtain s3 where
    st: "start (Suc fuel) e ?s2 = Some (Returned (), s3)"
    and f: "calls s3 = calls ?s2 + k + 2" "spawned s3 = Suc (spawned ?s2)"
      "trace s3 = trace ?s2 @ Spawn (spawned ?s2) #
                concat (replicate k [Http (Get ''/health''), Sleep 500]) @
                [Http (Get ''/health''), Http (Post ''/boundary/cache'' (JObj []))] @
                boundary_log b"
    by blast
  have c3: "calls s3 = calls s + k + 3" using f(1) by simp
  have rq: "request (Suc (Suc fuel)) e endpoint payload s =
      Some ((case respond e (calls s + k + 3) ?rq of
                Resolve x \<Rightarrow> Returned x
              | Reject t2 \<Rightarrow> Threw t2), snd (axios e ?rq s3))"
    using hs(1,3,4) st
    by (cases "respond e (calls s + k + 3) ?rq")
       (simp_all add: request.simps performRequest_round_trip restartWorker_stop_start axios_def c3)
  have kl: "kills (trace ?s1) \<le> Suc (kills (trace s))"
    using stop_kills[of e ?s0] by simp
  have bl: "round_trips (boundary_log b) = []" "kills (boundary_log b) = 0"
    by (cases b; simp add: boundary_log_def)+
  show "\<exists>s'. request (Suc (Suc fuel)) e endpoint payload s =
            Some ((case respond e (calls s + k + 3) (round_trip endpoint payload) of
                     Resolve x \<Rightarrow> Returned x
                   | Reject t2 \<Rightarrow> Threw t2), s') \<and>
          calls s' = calls s + k + 4 \<and> spawned s' = Suc (spawned s) \<and>
          kills (trace s') \<le> Suc (kills (trace s)) \<and>
          round_trips (trace s') =
            round_trips (trace s) @ round_trip endpoint payload #
            replicate (Suc k) (Get ''/health'') @
            [Post ''/boundary/cache'' (JObj []), round_trip endpoint payload]"
    unfolding rq using kl by (simp add: f bl replicate_append_same)
qed

theorem request_transient_retry_witness:
  "\<exists>s'. request 2 flaky ''/grid/build'' (Some grid_payload) running = Some (Returned (JObj []), s') \<and>
          calls s' = 6 \<and> spawned s' = 2 \<and> kills (trace s') \<le> 1 \<and>
          round_trips (trace s') =
            [Get ''/health'', Post ''/boundary/cache'' (JObj []),
             Post ''/grid/build'' grid_payload,
             Get ''/health'', Post ''/boundary/cache'' (JObj []),
             Post ''/grid/build'' grid_payload]"
proof -
  have "ready running \<and> process running = Some 0 \<and>
    respond flaky (calls running) (round_trip ''/grid/build'' (Some grid_payload)) = Reject server_error \<and>
    shouldAttemptRecovery server_error \<and> (0::nat) < 60 \<and>
    (\<forall>i<0. \<exists>t'. respond flaky (calls running + 1 + i) (Get ''/health'') = Reject t') \<and>
    respond flaky (calls running + 1 + 0) (Get ''/health'') = Resolve (JObj []) \<and>
    respond flaky (calls running + 0 + 2) (Post ''/boundary/cache'' (JObj [])) = Resolve (JObj []) \<and>
    (\<forall>t'. Resolve (JObj []) = Reject t' \<longrightarrow> \<not> shouldAttemptRecovery t')"
    by (simp add: running_def flaky_def server_error_def)
  with request_transient_retry[of running 0 flaky "''/grid/build''" "Some grid_payload"
        server_error 0 "JObj []" "Resolve (JObj [])" 0]
  have "\<exists>s'. request (Suc (Suc 0)) flaky ''/grid/build'' (Some grid_payload) running =
            Some ((case respond flaky (calls running + 0 + 3) (round_trip ''/grid/build'' (Some grid_payload)) of
                     Resolve x \<Rightarrow> Returned x
                   | Reject t2 \<Rightarrow> Threw t2), s') \<and>
          calls s' = calls running + 0 + 4 \<and> spawned s' = Suc (spawned running) \<and>
          kills (trace s') \<le> Suc (kills (trace running)) \<and>
          round_trips (trace s') =
            round_trips (trace running) @ round_trip ''/grid/build'' (Some grid_payload) #
            replicate (Suc 0) (Get ''/health'') @
            [Post ''/boundary/cache'' (JObj []), round_trip ''/grid/build'' (Some grid_payload)]"
    by blast
  then show ?thesis
    by (simp add: running_def flaky_def round_trip_def numeral_2_eq_2)
qed

lemma request_cache_flaky_running:
  "request 3 cache_flaky ''/grid/build'' (Some grid_payload) running =
     Some (Returned (JObj []),
           running\<lparr>process := Some 2, spawned := 3, promises := 3, calls := 9, awaits := 11,
             trace := trace running @
               [Http (Post ''/grid/build'' grid_payload),
                Kill 0, SetTimeout 2000, Spawn 1,
                Http (Get ''/health''), Http (Post ''/boundary/cache'' (JObj [])),
                Kill 1, SetTimeout 2000, Spawn 2,
                Http (Get ''/health''), Http (Post ''/boundary/cache'' (JObj [])),
                Http (Post ''/boundary/cache'' (JObj [])),
                Http (Post ''/grid/build'' grid_payload)]\<rparr>)"
  by (simp add: request.simps restartWorker.simps start.simps spawnWorker.simps ensureBoundary.simps
      waitForReady_def waitForReady_loop.simps performRequest_def axios_def sleep_def suspend_def
      emit_def stop_def cleanup_def on_exit_def spawn_process_def cache_flaky_def running_def
      server_error_def numeral_3_eq_3)

lemma request_unreachable_running:
  "request 1 unreachable ''/grid/build'' (Some grid_payload) running =
     Some (Threw (Error (Msg ''Python worker failed to start'')),
           running\<lparr>process := Some 1, ready := False, spawned := 2, promises := 2,
             calls := 63, awaits := 124,
             trace := trace running @
               [Http (Post ''/grid/build'' grid_payload), Kill 0, SetTimeout 2000, Spawn 1] @
               concat (replicate 60 [Http (Get ''/health''), Sleep 500])\<rparr>)"
proof -
  have q: "\<And>k. interrupts unreachable k = []" by (simp add: unreachable_def)
  have su: "\<And>s. suspend unreachable s = s\<lparr>awaits := Suc (awaits s)\<rparr>"
    by (simp add: suspend_def q)
  define s0 where "s0 = running\<lparr>calls := 3, awaits := 3,
      trace := trace running @ [Http (Post ''/grid/build'' grid_payload)]\<rparr>"
  define s1 where "s1 = running\<lparr>process := None, ready := False, calls := 3, awaits := 4,
      trace := trace running @ [Http (Post ''/grid/build'' grid_payload), Kill 0, SetTimeout 2000]\<rparr>"
  define s2 where "s2 = running\<lparr>process := Some 1, ready := False, startPromise := Some 1,
      spawned := 2, promises := 2, calls := 3, awaits := 4,
      trace := trace running @ [Http (Post ''/grid/build'' grid_payload), Kill 0, SetTimeout 2000, Spawn 1]\<rparr>"
  have un: "\<And>k rq. respond unreachable k rq = Reject refused"
    "\<And>proc. onKill unreachable proc = NeverConfirms"
    by (simp_all add: unreachable_def)
  have p: "performRequest unreachable ''/grid/build'' (Some grid_payload) running = (Reject refused, s0)"
    by (simp add: performRequest_def axios_def su emit_def running_fields s0_def un)
  have k: "stop unreachable s0 = (Returned (), s1)"
    by (simp add: stop_def s0_def s1_def running_fields su emit_def cleanup_def un)
  have sp: "spawn_process (s1\<lparr>startPromise := Some (promises s1), promises := Suc (promises s1)\<rparr>) = s2"
    by (simp add: spawn_process_def emit_def s1_def s2_def running_fields)
  have "waitForReady unreachable s2 =
      (Threw (Error (Msg ''Python worker failed to start'')), after_probes unreachable 60 s2)"
    unfolding waitForReady_def
    by (rule waitForReady_loop_all_fail) (simp_all add: un)
  then have st: "start 0 unreachable (s1\<lparr>startPromise := None\<rparr>) =
      Some (Threw (Error (Msg ''Python worker failed to start'')),
            (after_probes unreachable 60 s2)\<lparr>startPromise := None\<rparr>)"
    using sp by (simp add: start.simps spawnWorker.simps s1_def running_fields)
  have rw: "restartWorker 0 unreachable s0 =
      Some (Threw (Error (Msg ''Python worker failed to start'')),
            (after_probes unreachable 60 s2)\<lparr>startPromise := None\<rparr>)"
    by (simp add: restartWorker.simps k st)
  have r: "shouldAttemptRecovery refused"
    by (simp add: refused_def TRANSIENT_ERROR_CODES_def)
  have "request (Suc 0) unreachable ''/grid/build'' (Some grid_payload) running =
      Some (Threw (Error (Msg ''Python worker failed to start'')),
            (after_probes unreachable 60 s2)\<lparr>startPromise := None\<rparr>)"
    by (simp add: request.simps running_fields p r rw)
  then show ?thesis
    by (simp add: quiet_after_probes[OF q] s2_def running_fields)
qed


text \<open>
  C2, as stated, fails twice over.  When the \<^verbatim>\<open>/boundary/cache\<close> call of the restarted
  worker's start answers 500 as well, that nested \<^verbatim>\<open>request()\<close> restarts the worker again,
  and one outer request has killed and spawned twice.  And when the respawned worker never
  answers, the request ends after the failed round trip and the 60 probes: the round trip
  is not issued a second time.
\<close>

theorem request_transient_retry_counterexample:
  "request 3 cache_flaky ''/grid/build'' (Some grid_payload) running =
     Some (Returned (JObj []),
           running\<lparr>process := Some 2, spawned := 3, promises := 3, calls := 9, awaits := 11,
             trace := trace running @
               [Http (Post ''/grid/build'' grid_payload),
                Kill 0, SetTimeout 2000, Spawn 1,
                Http (Get ''/health''), Http (Post ''/boundary/cache'' (JObj [])),
                Kill 1, SetTimeout 2000, Spawn 2,
                Http (Get ''/health''), Http (Post ''/boundary/cache'' (JObj [])),
                Http (Post ''/boundary/cache'' (JObj [])),
                Http (Post ''/grid/build'' grid_payload)]\<rparr>) \<and>
   request 1 unreachable ''/grid/build'' (Some grid_payload) running =
     Some (Threw (Error (Msg ''Python worker failed to start'')),
           running\<lparr>process := Some 1, ready := False, spawned := 2, promises := 2,
             calls := 63, awaits := 124,
             trace := trace running @
               [Http (Post ''/grid/build'' grid_payload), Kill 0, SetTimeout 2000, Spawn 1] @
               concat (replicate 60 [Http (Get ''/health''), Sleep 500])\<rparr>)"
  using request_cache_flaky_running request_unreachable_running by (rule conjI)

text \<open>
  C9, as the code has it.  With \<^verbatim>\<open>ready\<close> set, \<^verbatim>\<open>start()\<close> returns at once and changes
  nothing.  \<^verbatim>\<open>request()\<close> makes the round trip as its first effect, with no spawn before
  it; when the round trip succeeds, or fails without a transient classification, the
  round trip is the only effect of the request, and the process handle and the ready flag
  are as before unless a callback of the event loop ran during the round trip.
\<close>

theorem ready_frame:
  "ready s \<longrightarrow>
   start fuel e s = Some (Returned (), s) \<and>
   (\<forall>c s1. request (Suc fuel) e endpoint payload s = Some (c, s1) \<longrightarrow>
      (\<exists>tr. trace s1 = trace s @ Http (round_trip endpoint payload) # tr)) \<and>
   (\<forall>v. respond e (calls s) (round_trip endpoint payload) = Resolve v \<longrightarrow>
      request (Suc fuel) e endpoint payload s =
        Some (Returned v, snd (axios e (round_trip endpoint payload) s))) \<and>
   (\<forall>t. respond e (calls s) (round_trip endpoint payload) = Reject t \<and> \<not> shouldAttemptRecovery t \<longrightarrow>
      request (Suc fuel) e endpoint payload s =
        Some (Threw (normalizeError t), snd (axios e (round_trip endpoint payload) s))) \<and>
   trace (snd (axios e (round_trip endpoint payload) s)) =
     trace s @ [Http (round_trip endpoint payload)] \<and>
   spawned (snd (axios e (round_trip endpoint payload) s)) = spawned s \<and>
   (interrupts e (awaits s) = [] \<longrightarrow>
      process (snd (axios e (round_trip endpoint payload) s)) = process s \<and>
      ready (snd (axios e (round_trip endpoint payload) s)))"
proof (intro impI conjI allI)
  assume r: "ready s"
  show "start fuel e s = Some (Returned (), s)"
    using r by (simp add: start.simps)
next
  fix c s1
  assume r: "ready s" and q: "request (Suc fuel) e endpoint payload s = Some (c, s1)"
  from request_ready_first_call[OF r q]
  show "\<exists>tr. trace s1 = trace s @ Http (round_trip endpoint payload) # tr"
    by (auto simp: extends_def)
next
  fix v
  assume "ready s" and "respond e (calls s) (round_trip endpoint payload) = Resolve v"
  then show "request (Suc fuel) e endpoint payload s =
        Some (Returned v, snd (axios e (round_trip endpoint payload) s))"
    by (rule request_ready_resolve)
next
  fix t
  assume "ready s"
    and "respond e (calls s) (round_trip endpoint payload) = Reject t \<and> \<not> shouldAttemptRecovery t"
  then show "request (Suc fuel) e endpoint payload s =
        Some (Threw (normalizeError t), snd (axios e (round_trip endpoint payload) s))"
    using request_ready_fatal by blast
next
  show "trace (snd (axios e (round_trip endpoint payload) s)) =
     trace s @ [Http (round_trip endpoint payload)]"
    by simp
  show "spawned (snd (axios e (round_trip endpoint payload) s)) = spawned s"
    by simp
next
  assume "ready s" and q: "interrupts e (awaits s) = []"
  then show "process (snd (axios e (round_trip endpoint payload) s)) = process s"
    and "ready (snd (axios e (round_trip endpoint payload) s))"
    by (simp_all add: axios_quiet)
qed

theorem ready_frame_witness:
  "start 0 slow_worker running = Some (Returned (), running) \<and>
   request 1 slow_worker ''/grid/build'' (Some grid_payload) running =
     Some (Returned (JObj []),
           running\<lparr>calls := 3, awaits := 3,
             trace := trace running @ [Http (Post ''/grid/build'' grid_payload)]\<rparr>) \<and>
   request 1 validating ''/mission/compile'' (Some mission_payload) running =
     Some (Threw (Error (JSON_stringify unknown_token)),
           running\<lparr>calls := 3, awaits := 3,
             trace := trace running @ [Http (Post ''/mission/compile'' mission_payload)]\<rparr>)"
proof -
  have r: "ready running" by (simp add: running_def)
  have v: "respond slow_worker (calls running) (round_trip ''/grid/build'' (Some grid_payload)) =
      Resolve (JObj [])"
    by (simp add: running_def slow_worker_def)
  have t: "respond validating (calls running) (round_trip ''/mission/compile'' (Some mission_payload)) =
      Reject rejection \<and> \<not> shouldAttemptRecovery rejection"
    by (simp add: validating_def rejection_def TRANSIENT_ERROR_CODES_def)
  from ready_frame[of running 0 slow_worker "''/grid/build''" "Some grid_payload"] r v
  have a: "start 0 slow_worker running = Some (Returned (), running)"
    and b: "request (Suc 0) slow_worker ''/grid/build'' (Some grid_payload) running =
        Some (Returned (JObj []),
              snd (axios slow_worker (round_trip ''/grid/build'' (Some grid_payload)) running))"
    by blast+
  from ready_frame[of running 0 validating "''/mission/compile''" "Some mission_payload"] r t
  have c: "request (Suc 0) validating ''/mission/compile'' (Some mission_payload) running =
        Some (Threw (normalizeError rejection),
              snd (axios validating (round_trip ''/mission/compile'' (Some mission_payload)) running))"
    by blast
  have "snd (axios slow_worker (round_trip ''/grid/build'' (Some grid_payload)) running) =
      running\<lparr>calls := 3, awaits := 3,
        trace := trace running @ [Http (Post ''/grid/build'' grid_payload)]\<rparr>"
    by (simp add: axios_quiet slow_worker_def round_trip_def running_fields)
  moreover have "snd (axios validating (round_trip ''/mission/compile'' (Some mission_payload)) running) =
      running\<lparr>calls := 3, awaits := 3,
        trace := trace running @ [Http (Post ''/mission/compile'' mission_payload)]\<rparr>"
    by (simp add: axios_quiet validating_def round_trip_def running_fields)
  moreover have "normalizeError rejection = Error (JSON_stringify unknown_token)"
    by (simp add: rejection_def unknown_token_def)
  ultimately show ?thesis
    using a b c by simp
qed

text \<open>
  C9, as stated, fails: the round trip of a ready worker answers 500 once, and
  \<^verbatim>\<open>request()\<close> kills worker 0 and spawns worker 1; the process handle has changed.
\<close>

theorem ready_frame_counterexample:
  "request 2 flaky ''/mission/compile'' (Some mission_payload) running =
     Some (Returned (JObj []),
           running\<lparr>process := Some 1, spawned := 2, promises := 2, calls := 6, awaits := 7,
             trace := trace running @
               [Http (Post ''/mission/compile'' mission_payload),
                Kill 0, SetTimeout 2000, Spawn 1,
                Http (Get ''/health''), Http (Post ''/boundary/cache'' (JObj [])),
                Http (Post ''/mission/compile'' mission_payload)]\<rparr>)"
  by (simp add: request.simps restartWorker.simps start.simps spawnWorker.simps ensureBoundary.simps
      waitForReady_def waitForReady_loop.simps performRequest_def axios_def sleep_def suspend_def
      emit_def stop_def cleanup_def on_exit_def spawn_process_def flaky_def running_def
      server_error_def numeral_2_eq_2)

section \<open>Starting again after a timeout\<close>

lemma on_exit_fields [simp]:
  "\<not> ready (on_exit s)" "process (on_exit s) = None"
  "calls (on_exit s) = calls s" "spawned (on_exit s) = spawned s" "promises (on_exit s) = promises s"
  "trace (on_exit s) = trace s" "quitting (on_exit s) = quitting s"
  by (simp_all add: on_exit_def)

lemma on_exit_startPromise: "startPromise s = None \<Longrightarrow> startPromise (on_exit s) = None"
  by (simp add: on_exit_def)

text \<open>
  C6, as the code has it.  From a manager with no process handle, a \<^verbatim>\<open>start()\<close> whose
  60 health probes all fail throws \<^verbatim>\<open>Python worker failed to start\<close> after one spawn and
  60 probes: it does not try again by itself.  Once the worker's exit has been observed
  (the \<^verbatim>\<open>exit\<close> handler cleared the handle), the next \<^verbatim>\<open>start()\<close> spawns a new worker
  and probes again: it times out again when the next 60 probes fail, and it returns when
  a probe succeeds and the \<^verbatim>\<open>/boundary/cache\<close> call does not fail with a transient
  classification.
\<close>

theorem start_after_timeout:
  "\<not> ready s \<and> process s = None \<and> startPromise s = None \<and>
   (\<forall>i<60. \<exists>t. respond e (calls s + i) (Get ''/health'') = Reject t) \<longrightarrow>
   (\<exists>s1. start fuel e s = Some (Threw (Error (Msg ''Python worker failed to start'')), s1) \<and>
      spawned s1 = Suc (spawned s) \<and> calls s1 = calls s + 60 \<and>
      trace s1 = trace s @ Spawn (spawned s) #
                 concat (replicate 60 [Http (Get ''/health''), Sleep 500]) \<and>
      ((\<forall>i<60. \<exists>t. respond e (calls s + 60 + i) (Get ''/health'') = Reject t) \<longrightarrow>
         (\<exists>s2. start fuel e (on_exit s1) =
                  Some (Threw (Error (Msg ''Python worker failed to start'')), s2) \<and>
            spawned s2 = Suc (Suc (spawned s)) \<and> calls s2 = calls s + 120 \<and>
            trace s2 = trace s1 @ Spawn (Suc (spawned s)) #
                       concat (replicate 60 [Http (Get ''/health''), Sleep 500]))) \<and>
      (\<forall>k v b. k < 60 \<and>
         (\<forall>i<k. \<exists>t. respond e (calls s + 60 + i) (Get ''/health'') = Reject t) \<and>
         respond e (calls s + 60 + k) (Get ''/health'') = Resolve v \<and>
         respond e (calls s + 60 + k + 1) (Post ''/boundary/cache'' (JObj [])) = b \<and>
         (\<forall>t. b = Reject t \<longrightarrow> \<not> shouldAttemptRecovery t) \<longrightarrow>
         (\<exists>s2. start (Suc fuel) e (on_exit s1) = Some (Returned (), s2) \<and>
            spawned s2 = Suc (Suc (spawned s)) \<and> calls s2 = calls s + 60 + k + 2 \<and>
            trace s2 = trace s1 @ Spawn (Suc (spawned s)) #
                       concat (replicate k [Http (Get ''/health''), Sleep 500]) @
                       [Http (Get ''/health''), Http (Post ''/boundary/cache'' (JObj []))] @
                       boundary_log b)))"
proof
  assume h: "\<not> ready s \<and> process s = None \<and> startPromise s = None \<and>
   (\<forall>i<60. \<exists>t. respond e (calls s + i) (Get ''/health'') = Reject t)"
  then have "\<not> ready s" "startPromise s = None" "process s = None"
    "\<forall>i<60. \<exists>t. respond e (calls s + i) (Get ''/health'') = Reject t"
    by simp_all
  from start_cleared_timeout[OF this, of fuel] obtain s1 where
    first: "start fuel e s = Some (Threw (Error (Msg ''Python worker failed to start'')), s1)"
    and f: "calls s1 = calls s + 60" "spawned s1 = Suc (spawned s)" "startPromise s1 = None"
      "trace s1 = trace s @ Spawn (spawned s) #
                 concat (replicate 60 [Http (Get ''/health''), Sleep 500])"
    by blast
  have cl: "\<not> ready (on_exit s1)" "startPromise (on_exit s1) = None" "process (on_exit s1) = None"
    using on_exit_startPromise[OF f(3)] by simp_all
  have second: "\<exists>s2. start fuel e (on_exit s1) =
                  Some (Threw (Error (Msg ''Python worker failed to start'')), s2) \<and>
            spawned s2 = Suc (Suc (spawned s)) \<and> calls s2 = calls s + 120 \<and>
            trace s2 = trace s1 @ Spawn (Suc (spawned s)) #
                       concat (replicate 60 [Http (Get ''/health''), Sleep 500])"
    if "\<forall>i<60. \<exists>t. respond e (calls s + 60 + i) (Get ''/health'') = Reject t"
  proof -
    from that have "\<forall>i<60. \<exists>t. respond e (calls (on_exit s1) + i) (Get ''/health'') = Reject t"
      by (simp add: f)
    from start_cleared_timeout[OF cl this, of fuel] show ?thesis
      by (auto simp: f)
  qed
  have third: "\<exists>s2. start (Suc fuel) e (on_exit s1) = Some (Returned (), s2) \<and>
            spawned s2 = Suc (Suc (spawned s)) \<and> calls s2 = calls s + 60 + k + 2 \<and>
            trace s2 = trace s1 @ Spawn (Suc (spawned s)) #
                       concat (replicate k [Http (Get ''/health''), Sleep 500]) @
                       [Http (Get ''/health''), Http (Post ''/boundary/cache'' (JObj []))] @
                       boundary_log b"
    if "k < 60 \<and>
         (\<forall>i<k. \<exists>t. respond e (calls s + 60 + i) (Get ''/health'') = Reject t) \<and>
         respond e (calls s + 60 + k) (Get ''/health'') = Resolve v \<and>
         respond e (calls s + 60 + k + 1) (Post ''/boundary/cache'' (JObj [])) = b \<and>
         (\<forall>t. b = Reject t \<longrightarrow> \<not> shouldAttemptRecovery t)" for k v b
  proof -
    from that have k: "k < 60"
      and a: "\<forall>i<k. \<exists>t. respond e (calls (on_exit s1) + i) (Get ''/health'') = Reject t"
      and b: "respond e (calls (on_exit s1) + k) (Get ''/health'') = Resolve v"
      and c: "respond e (calls (on_exit s1) + k + 1) (Post ''/boundary/cache'' (JObj [])) = b"
      and d: "\<forall>t. b = Reject t \<longrightarrow> \<not> shouldAttemptRecovery t"
      by (simp_all add: f)
    from start_cleared_ready[OF cl k a b c d, of fuel] show ?thesis
      by (auto simp: f)
  qed
  show "\<exists>s1. start fuel e s = Some (Threw (Error (Msg ''Python worker failed to start'')), s1) \<and>
      spawned s1 = Suc (spawned s) \<and> calls s1 = calls s + 60 \<and>
      trace s1 = trace s @ Spawn (spawned s) #
                 concat (replicate 60 [Http (Get ''/health''), Sleep 500]) \<and>
      ((\<forall>i<60. \<exists>t. respond e (calls s + 60 + i) (Get ''/health'') = Reject t) \<longrightarrow>
         (\<exists>s2. start fuel e (on_exit s1) =
                  Some (Threw (Error (Msg ''Python worker failed to start'')), s2) \<and>
            spawned s2 = Suc (Suc (spawned s)) \<and> calls s2 = calls s + 120 \<and>
            trace s2 = trace s1 @ Spawn (Suc (spawned s)) #
                       concat (replicate 60 [Http (Get ''/health''), Sleep 500]))) \<and>
      (\<forall>k v b. k < 60 \<and>
         (\<forall>i<k. \<exists>t. respond e (calls s + 60 + i) (Get ''/health'') = Reject t) \<and>
         respond e (calls s + 60 + k) (Get ''/health'') = Resolve v \<and>
         respond e (calls s + 60 + k + 1) (Post ''/boundary/cache'' (JObj [])) = b \<and>
         (\<forall>t. b = Reject t \<longrightarrow> \<not> shouldAttemptRecovery t) \<longrightarrow>
         (\<exists>s2. start (Suc fuel) e (on_exit s1) = Some (Returned (), s2) \<and>
            spawned s2 = Suc (Suc (spawned s)) \<and> calls s2 = calls s + 60 + k + 2 \<and>
            trace s2 = trace s1 @ Spawn (Suc (spawned s)) #
                       concat (replicate k [Http (Get ''/health''), Sleep 500]) @
                       [Http (Get ''/health''), Http (Post ''/boundary/cache'' (JObj []))] @
                       boundary_log b))"
    using first f(1,2,4) second third by blast
qed

lemma start_idle_timeout:
  assumes "\<And>k. interrupts e k = []"
    and "\<forall>i<60. \<exists>t. respond e i (Get ''/health'') = Reject t"
  shows "start fuel e idle =
     Some (Threw (Error (Msg ''Python worker failed to start'')), timed_out)"
proof -
  let ?s1 = "spawn_process (idle\<lparr>startPromise := Some (promises idle), promises := Suc (promises idle)\<rparr>)"
  have "waitForReady e ?s1 =
      (Threw (Error (Msg ''Python worker failed to start'')), after_probes e 60 ?s1)"
    unfolding waitForReady_def
    by (rule waitForReady_loop_all_fail) (simp_all add: assms(2) idle_def)
  then show ?thesis
    by (simp add: start.simps spawnWorker.simps quiet_after_probes[OF assms(1)] idle_def
        timed_out_def spawn_process_def emit_def)
qed

theorem start_after_timeout_witness:
  "(\<exists>s2. start 1 unreachable (on_exit timed_out) =
          Some (Threw (Error (Msg ''Python worker failed to start'')), s2) \<and>
        spawned s2 = 2 \<and> calls s2 = 120 \<and>
        trace s2 = trace timed_out @ Spawn 1 #
                   concat (replicate 60 [Http (Get ''/health''), Sleep 500])) \<and>
   (\<exists>s2. start 1 late_worker (on_exit timed_out) = Some (Returned (), s2) \<and>
        spawned s2 = 2 \<and> calls s2 = 62 \<and>
        trace s2 = trace timed_out @
                   [Spawn 1, Http (Get ''/health''), Http (Post ''/boundary/cache'' (JObj []))])"
proof
  have u: "\<not> ready idle \<and> process idle = None \<and> startPromise idle = None \<and>
      (\<forall>i<60. \<exists>t. respond unreachable (calls idle + i) (Get ''/health'') = Reject t)"
    by (simp add: idle_def unreachable_def)
  have u2: "\<forall>i<60. \<exists>t. respond unreachable (calls idle + 60 + i) (Get ''/health'') = Reject t"
    by (simp add: unreachable_def)
  from start_after_timeout[of idle unreachable 1] u obtain s1 where
    a: "start 1 unreachable idle = Some (Threw (Error (Msg ''Python worker failed to start'')), s1)"
    and b: "(\<forall>i<60. \<exists>t. respond unreachable (calls idle + 60 + i) (Get ''/health'') = Reject t) \<longrightarrow>
         (\<exists>s2. start 1 unreachable (on_exit s1) =
                  Some (Threw (Error (Msg ''Python worker failed to start'')), s2) \<and>
            spawned s2 = Suc (Suc (spawned idle)) \<and> calls s2 = calls idle + 120 \<and>
            trace s2 = trace s1 @ Spawn (Suc (spawned idle)) #
                       concat (replicate 60 [Http (Get ''/health''), Sleep 500]))"
    by blast
  have "start 1 unreachable idle =
      Some (Threw (Error (Msg ''Python worker failed to start'')), timed_out)"
    by (rule start_idle_timeout) (simp_all add: unreachable_def)
  with a have s1: "s1 = timed_out" by simp
  from b u2 show "\<exists>s2. start 1 unreachable (on_exit timed_out) =
          Some (Threw (Error (Msg ''Python worker failed to start'')), s2) \<and>
        spawned s2 = 2 \<and> calls s2 = 120 \<and>
        trace s2 = trace timed_out @ Spawn 1 #
                   concat (replicate 60 [Http (Get ''/health''), Sleep 500])"
    unfolding s1 by (simp add: idle_def numeral_2_eq_2)
next
  have l: "\<not> ready idle \<and> process idle = None \<and> startPromise idle = None \<and>
      (\<forall>i<60. \<exists>t. respond late_worker (calls idle + i) (Get ''/health'') = Reject t)"
    by (simp add: idle_def late_worker_def)
  have l2: "(0::nat) < 60 \<and>
      (\<forall>i<0. \<exists>t. respond late_worker (calls idle + 60 + i) (Get ''/health'') = Reject t) \<and>
      respond late_worker (calls idle + 60 + 0) (Get ''/health'') = Resolve (JObj []) \<and>
      respond late_worker (calls idle + 60 + 0 + 1) (Post ''/boundary/cache'' (JObj [])) = Resolve (JObj []) \<and>
      (\<forall>t. Resolve (JObj []) = Reject t \<longrightarrow> \<not> shouldAttemptRecovery t)"
    by (simp add: idle_def late_worker_def)
  from start_after_timeout[of idle late_worker 0] l obtain s1 where
    a: "start 0 late_worker idle = Some (Threw (Error (Msg ''Python worker failed to start'')), s1)"
    and c: "\<forall>k v b. k < 60 \<and>
         (\<forall>i<k. \<exists>t. respond late_worker (calls idle + 60 + i) (Get ''/health'') = Reject t) \<and>
         respond late_worker (calls idle + 60 + k) (Get ''/health'') = Resolve v \<and>
         respond late_worker (calls idle + 60 + k + 1) (Post ''/boundary/cache'' (JObj [])) = b \<and>
         (\<forall>t. b = Reject t \<longrightarrow> \<not> shouldAttemptRecovery t) \<longrightarrow>
         (\<exists>s2. start (Suc 0) late_worker (on_exit s1) = Some (Returned (), s2) \<and>
            spawned s2 = Suc (Suc (spawned idle)) \<and> calls s2 = calls idle + 60 + k + 2 \<and>
            trace s2 = trace s1 @ Spawn (Suc (spawned idle)) #
                       concat (replicate k [Http (Get ''/health''), Sleep 500]) @
                       [Http (Get ''/health''), Http (Post ''/boundary/cache'' (JObj []))] @
                       boundary_log b)"
    by blast
  have "start 0 late_worker idle =
      Some (Threw (Error (Msg ''Python worker failed to start'')), timed_out)"
    by (rule start_idle_timeout) (simp_all add: late_worker_def)
  with a have s1: "s1 = timed_out" by simp
  from c l2 have "\<exists>s2. start (Suc 0) late_worker (on_exit s1) = Some (Returned (), s2) \<and>
            spawned s2 = Suc (Suc (spawned idle)) \<and> calls s2 = calls idle + 60 + 0 + 2 \<and>
            trace s2 = trace s1 @ Spawn (Suc (spawned idle)) #
                       concat (replicate 0 [Http (Get ''/health''), Sleep 500]) @
                       [Http (Get ''/health''), Http (Post ''/boundary/cache'' (JObj []))] @
                       boundary_log (Resolve (JObj []))"
    by blast
  then show "\<exists>s2. start 1 late_worker (on_exit timed_out) = Some (Returned (), s2) \<and>
        spawned s2 = 2 \<and> calls s2 = 62 \<and>
        trace s2 = trace timed_out @
                   [Spawn 1, Http (Get ''/health''), Http (Post ''/boundary/cache'' (JObj []))]"
    unfolding s1 by (simp add: idle_def boundary_log_def numeral_2_eq_2)
qed

text \<open>
  C6, as stated, fails: the worker never answers, the first \<^verbatim>\<open>start()\<close> times out and
  leaves the process handle set; the second \<^verbatim>\<open>start()\<close> then returns at once, with no
  spawn and no probe.
\<close>

theorem start_after_timeout_counterexample:
  "start 1 unreachable idle =
     Some (Threw (Error (Msg ''Python worker failed to start'')), timed_out) \<and>
   start 1 unreachable timed_out = Some (Returned (), timed_out\<lparr>promises := 2\<rparr>)"
proof
  show "start 1 unreachable idle =
      Some (Threw (Error (Msg ''Python worker failed to start'')), timed_out)"
    by (rule start_idle_timeout) (simp_all add: unreachable_def)
  show "start 1 unreachable timed_out = Some (Returned (), timed_out\<lparr>promises := 2\<rparr>)"
    by (simp add: start.simps spawnWorker.simps timed_out_def)
qed

section \<open>Single flight of \<^verbatim>\<open>start()\<close>\<close>




end
